theory Spec2Isabelle
  imports Complex_Main "HOL-Library.List_Lexorder" "HOL-Library.Char_ord"
begin

section \<open>Data model\<close>

text \<open>
  The pipeline works on pandas data frames. A numeric column is a list of cells, a cell
  being a rational number or the missing value (NaN, \<open>None\<close> here); a frame is the list
  of its named columns, in column order. Every comparison with a missing value is false,
  as it is for NaN. Floating point is abstracted to exact rational arithmetic.

  A column also has a dtype, which the cells do not show: a column of whole numbers may
  be stored as \<open>int64\<close> or as \<open>float64\<close>, and a column may hold text (dtype \<open>object\<close>).
  The functions whose result depends on it take the dtypes of the columns of their input
  frame as an argument. A column that is not numeric is carried in a frame with its name
  and its length; its cells are never read, since the first operation on such a column
  raises.
\<close>

type_synonym cell = "rat option"
type_synonym series = "cell list"
type_synonym dataframe = "(string \<times> series) list"

text \<open>A raised Python exception, with its message.\<close>

datatype exn = Exception string

datatype dtype = Int64 | Float64 | Object

definition columns :: "dataframe \<Rightarrow> string list" where
  "columns df = map fst df"

definition nrows :: "dataframe \<Rightarrow> nat" where
  "nrows df = (case df of [] \<Rightarrow> 0 | (c, s) # rest \<Rightarrow> length s)"

text \<open>\<open>df.empty\<close>: one of the two axes has length 0.\<close>

definition df_empty :: "dataframe \<Rightarrow> bool" where
  "df_empty df = (df = [] \<or> nrows df = 0)"

text \<open>\<open>df[col]\<close> for a column that is present (the callers test \<open>col in df.columns\<close>).\<close>

definition getc :: "dataframe \<Rightarrow> string \<Rightarrow> series" where
  "getc df col = (case map_of df col of Some s \<Rightarrow> s | None \<Rightarrow> [])"

text \<open>\<open>df[col] = s\<close> and \<open>df.loc[:, col] = s\<close> for a column that is present.\<close>

definition setc :: "dataframe \<Rightarrow> string \<Rightarrow> series \<Rightarrow> dataframe" where
  "setc df col s = map (\<lambda>(c, old). if c = col then (c, s) else (c, old)) df"

text \<open>A frame is well formed when column names are distinct and all columns have one length.\<close>

definition wf_df :: "dataframe \<Rightarrow> bool" where
  "wf_df df = (distinct (columns df) \<and> list_all (\<lambda>(c, s). length s = nrows df) df)"

subsection \<open>Series and mask primitives\<close>

definition s_lt :: "series \<Rightarrow> rat \<Rightarrow> bool list" where
  "s_lt s c = map (\<lambda>x. case x of None \<Rightarrow> False | Some v \<Rightarrow> v < c) s"

definition s_gt :: "series \<Rightarrow> rat \<Rightarrow> bool list" where
  "s_gt s c = map (\<lambda>x. case x of None \<Rightarrow> False | Some v \<Rightarrow> v > c) s"

definition s_eq :: "series \<Rightarrow> rat \<Rightarrow> bool list" where
  "s_eq s c = map (\<lambda>x. case x of None \<Rightarrow> False | Some v \<Rightarrow> v = c) s"

text \<open>\<open>s != c\<close>: true for a missing value.\<close>

definition s_ne :: "series \<Rightarrow> cell \<Rightarrow> bool list" where
  "s_ne s c = map (\<lambda>x. case (x, c) of (Some v, Some w) \<Rightarrow> v \<noteq> w | _ \<Rightarrow> True) s"

definition cell_lt :: "cell \<Rightarrow> cell \<Rightarrow> bool" where
  "cell_lt x y = (case (x, y) of (Some v, Some w) \<Rightarrow> v < w | _ \<Rightarrow> False)"

definition ss_lt :: "series \<Rightarrow> series \<Rightarrow> bool list" where
  "ss_lt s t = map (\<lambda>(x, y). cell_lt x y) (zip s t)"

definition ss_gt :: "series \<Rightarrow> series \<Rightarrow> bool list" where
  "ss_gt s t = map (\<lambda>(x, y). cell_lt y x) (zip s t)"

definition s_notna :: "series \<Rightarrow> bool list" where
  "s_notna s = map (\<lambda>x. x \<noteq> None) s"

definition s_isna :: "series \<Rightarrow> bool list" where
  "s_isna s = map (\<lambda>x. x = None) s"

definition mask_and :: "bool list \<Rightarrow> bool list \<Rightarrow> bool list" where
  "mask_and m1 m2 = map (\<lambda>(a, b). a \<and> b) (zip m1 m2)"

definition mask_or :: "bool list \<Rightarrow> bool list \<Rightarrow> bool list" where
  "mask_or m1 m2 = map (\<lambda>(a, b). a \<or> b) (zip m1 m2)"

definition mask_sum :: "bool list \<Rightarrow> nat" where
  "mask_sum m = length (filter (\<lambda>b. b) m)"

definition mask_any :: "bool list \<Rightarrow> bool" where
  "mask_any m = list_ex (\<lambda>b. b) m"

text \<open>\<open>s[mask] = v\<close> for a scalar, and \<open>s[mask] = t[mask]\<close> for an index-aligned series.\<close>

definition loc_set :: "series \<Rightarrow> bool list \<Rightarrow> cell \<Rightarrow> series" where
  "loc_set s m v = map (\<lambda>(x, b). if b then v else x) (zip s m)"

definition loc_set_series :: "series \<Rightarrow> bool list \<Rightarrow> series \<Rightarrow> series" where
  "loc_set_series s m t = map (\<lambda>(x, b, y). if b then y else x) (zip s (zip m t))"

text \<open>
  \<open>Series.abs()\<close>: exact on a float column; on an \<open>int64\<close> column the least value
  \<open>-2^63\<close> has no positive counterpart and wraps around to itself.
\<close>

definition s_abs :: "dtype \<Rightarrow> series \<Rightarrow> series" where
  "s_abs dt s = map (map_option (\<lambda>v. if dt = Int64 \<and> v = - (2 ^ 63) then v else \<bar>v\<bar>)) s"

definition dropna :: "series \<Rightarrow> rat list" where
  "dropna s = List.map_filter (\<lambda>x. x) s"

text \<open>
  \<open>Series.quantile(q)\<close>, linear interpolation between the two nearest order statistics
  of the non-missing values; NaN on a series without values.
\<close>

definition quantile :: "series \<Rightarrow> rat \<Rightarrow> cell" where
  "quantile s q =
     (let xs = sort (dropna s); n = length xs in
      if n = 0 then None
      else let h = rat_of_nat (n - 1) * q;
               lo = nat \<lfloor>h\<rfloor>;
               hi = min (lo + 1) (n - 1)
           in Some (xs ! lo + (h - rat_of_nat lo) * (xs ! hi - xs ! lo)))"


text \<open>\<open>Series.nunique()\<close>: the number of distinct non-missing values.\<close>

definition nunique :: "series \<Rightarrow> nat" where
  "nunique s = length (remdups (dropna s))"

text \<open>\<open>str.lower()\<close> on ASCII, \<open>sub in s\<close> and \<open>s.startswith(p)\<close>.\<close>

definition lower :: "string \<Rightarrow> string" where
  "lower s = map (\<lambda>c. if (65::nat) \<le> of_char c \<and> of_char c \<le> (90::nat)
                        then char_of (of_char c + (32::nat)) else c) s"

fun startswith :: "string \<Rightarrow> string \<Rightarrow> bool" where
  "startswith s [] = True"
| "startswith [] (p # ps) = False"
| "startswith (c # cs) (p # ps) = (c = p \<and> startswith cs ps)"

fun contains :: "string \<Rightarrow> string \<Rightarrow> bool" where
  "contains [] sub = (sub = [])"
| "contains (c # cs) sub = (startswith (c # cs) sub \<or> contains cs sub)"


section \<open>Validation pipeline (validators.py)\<close>

text \<open>
  A validation issue is the dictionary built by \<open>_add_issue\<close>; its free-form \<open>details\<close>
  entry plays no role in the pipeline and is left out. A strategy result is the dictionary
  returned by \<open>validate\<close>.
\<close>

record issue =
  issue_type :: string
  message :: string
  severity :: string
  field :: "string option"

record strategy_result =
  sr_status :: string
  sr_issues :: "issue list"
  sr_tests_passed :: nat
  sr_tests_failed :: nat
  sr_quality_metrics :: "string \<rightharpoonup> rat"

text \<open>
  What the two hooks \<open>_validate_impl\<close> and \<open>_calculate_quality_metrics\<close> of a concrete
  strategy leave in the strategy object, starting from the reset made by \<open>validate\<close>.
\<close>

record strategy_state =
  st_issues :: "issue list"
  st_tests_passed :: nat
  st_tests_failed :: nat
  st_quality_metrics :: "string \<rightharpoonup> rat"

text \<open>
  \<open>ValidationStrategy.validate\<close>: the hooks are the abstract part, a parameter here; they
  either raise or return. The \<open>try\<close>/\<open>except\<close> turns a raise into an error result.
\<close>

definition ValidationStrategy_validate ::
  "(dataframe \<Rightarrow> exn + strategy_state) \<Rightarrow> dataframe \<Rightarrow> strategy_result" where
  "ValidationStrategy_validate validate_impl df =
     (case validate_impl df of
        Inr st \<Rightarrow>
          \<lparr>sr_status =
             (if list_ex (\<lambda>i. severity i = ''critical'') (st_issues st) then ''failed''
              else if list_ex (\<lambda>i. severity i = ''warning'') (st_issues st) then ''warning''
              else ''passed''),
           sr_issues = st_issues st,
           sr_tests_passed = st_tests_passed st,
           sr_tests_failed = st_tests_failed st,
           sr_quality_metrics = st_quality_metrics st\<rparr>
      | Inl (Exception msg) \<Rightarrow>
          \<lparr>sr_status = ''error'',
           sr_issues = [\<lparr>issue_type = ''exception'', message = msg,
                         severity = ''critical'', field = None\<rparr>],
           sr_tests_passed = 0,
           sr_tests_failed = 1,
           sr_quality_metrics = Map.empty\<rparr>)"

text \<open>
  A strategy as the pipeline sees it (interface \<open>IDataValidationStrategy\<close>): a name and a
  \<open>validate\<close> that may raise. \<open>strategy_of\<close> is a strategy derived from
  \<open>ValidationStrategy\<close>, as every strategy of the repository is.
\<close>

record validation_strategy =
  name :: string
  validate :: "dataframe \<Rightarrow> exn + strategy_result"

definition strategy_of ::
  "string \<Rightarrow> (dataframe \<Rightarrow> exn + strategy_state) \<Rightarrow> validation_strategy" where
  "strategy_of n validate_impl =
     \<lparr>name = n, validate = (\<lambda>df. Inr (ValidationStrategy_validate validate_impl df))\<rparr>"

text \<open>\<open>ValidationPipelineStep.execute\<close>: runs the strategy, drops its result, returns \<open>df\<close>.\<close>

definition ValidationPipelineStep_execute ::
  "validation_strategy \<Rightarrow> dataframe \<Rightarrow> exn + dataframe" where
  "ValidationPipelineStep_execute strategy df =
     (case validate strategy df of
        Inl e \<Rightarrow> Inl e
      | Inr validation_result \<Rightarrow> Inr df)"

record step_info =
  si_name :: string
  si_status :: string
  si_issues_count :: nat

text \<open>
  The result dictionary of \<open>ValidationPipeline.process\<close>; the two wall-clock entries
  (\<open>processing_started\<close>, \<open>processing_time_ms\<close>) are left out. \<open>issues_count\<close> is only
  set on the path that runs the steps.
\<close>

record results =
  status :: string
  steps :: "step_info list"
  issues :: "issue list"
  quality_metrics :: "string \<rightharpoonup> rat"
  validation_pass :: nat
  dataset_quality_score :: int
  report_generated :: bool
  issues_count :: "nat option"

record ValidationPipeline =
  vp_steps :: "validation_strategy list"
  validation_count :: nat

text \<open>The local variables of the loop over the steps in \<open>process\<close>.\<close>

record loop_vars =
  l_status :: string
  l_steps :: "step_info list"
  all_issues :: "issue list"
  combined_metrics :: "string \<rightharpoonup> rat"
  critical_count :: nat
  warning_count :: nat

text \<open>Counting the issues of one step by severity (the inner \<open>for issue in issues\<close>).\<close>

fun count_severities :: "issue list \<Rightarrow> nat \<times> nat \<Rightarrow> nat \<times> nat" where
  "count_severities [] (c, w) = (c, w)"
| "count_severities (i # rest) (c, w) =
     (if severity i = ''critical'' then count_severities rest (c + 1, w)
      else if severity i = ''warning'' then count_severities rest (c, w + 1)
      else count_severities rest (c, w))"

text \<open>One iteration of the loop: the \<open>try\<close> body, or the \<open>except\<close> clause when \<open>validate\<close> raises.\<close>

definition process_step :: "dataframe \<Rightarrow> validation_strategy \<Rightarrow> loop_vars \<Rightarrow> loop_vars" where
  "process_step df step l =
     (case validate step df of
        Inl e \<Rightarrow> l\<lparr>l_status := ''error''\<rparr>
      | Inr step_result \<Rightarrow>
          (let (c, w) = count_severities (sr_issues step_result)
                          (critical_count l, warning_count l)
           in l\<lparr>l_steps := l_steps l @
                    [\<lparr>si_name = name step, si_status = sr_status step_result,
                      si_issues_count = length (sr_issues step_result)\<rparr>],
                 all_issues := all_issues l @ sr_issues step_result,
                 critical_count := c,
                 warning_count := w,
                 combined_metrics := combined_metrics l ++ sr_quality_metrics step_result,
                 l_status :=
                   (if sr_status step_result = ''failed'' then ''failed''
                    else if sr_status step_result = ''warning'' \<and> l_status l \<noteq> ''failed''
                    then ''warning'' else l_status l)\<rparr>))"

text \<open>\<open>ValidationPipeline.process\<close>, returning the pipeline (its counter) and the results.\<close>

definition process :: "ValidationPipeline \<Rightarrow> dataframe \<Rightarrow> ValidationPipeline \<times> results" where
  "process vp df =
     (let vp' = vp\<lparr>validation_count := validation_count vp + 1\<rparr> in
      if df_empty df then
        (vp', \<lparr>status = ''failed'', steps = [],
               issues = [\<lparr>issue_type = ''empty_dataframe'',
                          message = ''Empty dataframe provided for validation'',
                          severity = ''critical'', field = None\<rparr>],
               quality_metrics = Map.empty,
               validation_pass = validation_count vp',
               dataset_quality_score = 100,
               report_generated = False,
               issues_count = None\<rparr>)
      else
        (let l = fold (process_step df) (vp_steps vp)
                   \<lparr>l_status = ''passed'', l_steps = [], all_issues = [],
                    combined_metrics = Map.empty, critical_count = 0, warning_count = 0\<rparr>;
             penalty = int (critical_count l) * 10 + int (warning_count l) * 2
         in (vp', \<lparr>status = l_status l, steps = l_steps l,
                   issues = all_issues l,
                   quality_metrics = combined_metrics l,
                   validation_pass = validation_count vp',
                   dataset_quality_score =
                     (if all_issues l \<noteq> [] then max 0 (100 - penalty) else 100),
                   report_generated = False,
                   issues_count = Some (length (all_issues l))\<rparr>)))"

text \<open>
  \<open>DataValidationStep.execute\<close> (engine.py): the step keeps the results of its last run in
  \<open>_last_validation_results\<close>; the validator is shared between the two validation steps.
\<close>

definition DataValidationStep_execute ::
  "ValidationPipeline \<Rightarrow> results option \<Rightarrow> dataframe
     \<Rightarrow> (ValidationPipeline \<times> results option) \<times> dataframe" where
  "DataValidationStep_execute validator last_validation_results df =
     (if df_empty df then ((validator, last_validation_results), df)
      else (let (validator', r) = process validator df
            in ((validator', Some r), df)))"

text \<open>The number of issues of a given severity in a list of issues.\<close>

definition count_severity :: "string \<Rightarrow> issue list \<Rightarrow> nat" where
  "count_severity sev xs = length (filter (\<lambda>i. severity i = sev) xs)"

section \<open>Fixer strategies (fixers.py)\<close>

text \<open>
  A fixer works on a private copy of the frame and on the counter \<open>_fix_count\<close> of the
  strategy object, which \<open>_log_fixes\<close> increases.
\<close>

record fixer_state =
  frame :: dataframe
  fix_count :: nat

definition log_fixes :: "nat \<Rightarrow> fixer_state \<Rightarrow> fixer_state" where
  "log_fixes n st = (if n > 0 then st\<lparr>fix_count := fix_count st + n\<rparr> else st)"

text \<open>
  \<open>FixerStrategy.fix\<close>. The abstract \<open>_fix\<close> is the parameter \<open>fix_impl\<close>: it returns the
  fixed state, or raises, leaving the counter at some value. The arguments are the
  counter as the previous call left it and the frame; the result is the counter after
  the call and what \<open>fix\<close> returns or raises.
\<close>

definition FixerStrategy_fix ::
  "(fixer_state \<Rightarrow> exn \<times> nat + fixer_state) \<Rightarrow> nat \<Rightarrow> dataframe \<Rightarrow> nat \<times> (exn + dataframe)" where
  "FixerStrategy_fix fix_impl old_fix_count df =
     (let fix_count0 = 0 in
      if df_empty df then (fix_count0, Inr df)
      else (case fix_impl \<lparr>frame = df, fix_count = fix_count0\<rparr> of
              Inr st \<Rightarrow> (fix_count st, Inr (frame st))
            | Inl (e, c) \<Rightarrow> (c, Inr df)))"


text \<open>
  The \<open>_fix\<close> of a concrete strategy is named \<open>..._fix_impl\<close>, and the public \<open>fix\<close> of
  the strategy is \<open>FixerStrategy_fix\<close> applied to it. The outlier, market and consistency
  strategies are modelled on frames of numeric columns: there the comparisons, quantiles
  and assignments of their \<open>_fix\<close> do not raise, and \<open>_fix\<close> is a total function on the
  fixer state. The loan strategy is modelled on frames that may hold columns that are not
  numeric, on which its \<open>_fix\<close> raises.

  The configuration entries the fixers read: \<open>outlier_threshold\<close> and \<open>current_dataset\<close>.
\<close>

record config =
  outlier_threshold :: rat
  current_dataset :: string

text \<open>
  \<open>df.loc[mask, col] = v\<close> on the working frame, for a scalar and for an aligned series, and
  the recurring shape \<open>if mask.sum() > 0: assign; self._log_fixes(mask.sum(), ...)\<close>.
\<close>

definition loc_assign :: "string \<Rightarrow> bool list \<Rightarrow> cell \<Rightarrow> fixer_state \<Rightarrow> fixer_state" where
  "loc_assign col m v st =
     st\<lparr>frame := setc (frame st) col (loc_set (getc (frame st) col) m v)\<rparr>"

definition loc_assign_series ::
  "string \<Rightarrow> bool list \<Rightarrow> series \<Rightarrow> fixer_state \<Rightarrow> fixer_state" where
  "loc_assign_series col m t st =
     st\<lparr>frame := setc (frame st) col (loc_set_series (getc (frame st) col) m t)\<rparr>"

definition fix_masked ::
  "bool list \<Rightarrow> (fixer_state \<Rightarrow> fixer_state) \<Rightarrow> fixer_state \<Rightarrow> fixer_state" where
  "fix_masked m assign st = (if mask_sum m > 0 then log_fixes (mask_sum m) (assign st) else st)"

text \<open>Comparison of a series with a bound that may be NaN.\<close>

definition s_ltc :: "series \<Rightarrow> cell \<Rightarrow> bool list" where
  "s_ltc s c = map (\<lambda>x. cell_lt x c) s"

definition s_gtc :: "series \<Rightarrow> cell \<Rightarrow> bool list" where
  "s_gtc s c = map (\<lambda>x. cell_lt c x) s"

subsection \<open>OutlierFixerStrategy\<close>




definition domain_specific_columns :: "(string \<times> string list) list" where
  "domain_specific_columns =
     [(''Loan'', [''Age'', ''AnnualIncome'', ''CreditScore'', ''InterestRate'', ''LoanAmount'',
                 ''DebtToIncomeRatio'']),
      (''Fraud'', [''TransactionAmount'', ''DistanceFromHome'']),
      (''Market'', [''OpenValue'', ''CloseValue'', ''HighestValue'', ''LowestValue'', ''VIX'',
                   ''TEDSpread'']),
      (''Macro'', [''UnemploymentRate'', ''GDP'', ''InflationRate''])]"

text \<open>\<open>s.isnull().mean() > 0.5\<close>.\<close>

definition mostly_missing :: "series \<Rightarrow> bool" where
  "mostly_missing s = (rat_of_nat (mask_sum (s_isna s)) / rat_of_nat (length s) > 1 / 2)"

definition should_skip_column :: "string \<Rightarrow> dataframe \<Rightarrow> string \<Rightarrow> bool" where
  "should_skip_column col df dataset_name =
     (if (contains (lower col) ''id'' \<and> \<not> contains (lower col) ''ratio'')
         \<or> nunique (getc df col) \<le> 2
         \<or> mostly_missing (getc df col)
      then True
      else (case map_of domain_specific_columns dataset_name of
              Some cols \<Rightarrow> col \<in> set cols
            | None \<Rightarrow> False))"

text \<open>
  \<open>_calculate_bounds_cached\<close>: \<open>None\<close> stands for the pair \<open>(None, None)\<close> returned when the
  interquartile range is 0; quartiles that are NaN give bounds that are NaN.
\<close>

definition calculate_bounds_cached :: "cell \<Rightarrow> cell \<Rightarrow> rat \<Rightarrow> (cell \<times> cell) option" where
  "calculate_bounds_cached q1 q3 threshold =
     (case (q1, q3) of
        (Some a, Some b) \<Rightarrow>
          (let iqr = b - a in
           if iqr = 0 then None
           else Some (Some (a - threshold * iqr), Some (b + threshold * iqr)))
      | _ \<Rightarrow> Some (None, None))"

definition calculate_bounds :: "series \<Rightarrow> rat \<Rightarrow> (cell \<times> cell) option" where
  "calculate_bounds s threshold =
     calculate_bounds_cached (quantile s (1 / 4)) (quantile s (3 / 4)) threshold"

text \<open>\<open>_fix_outliers_with_bounds\<close>: both masks are taken before anything is assigned.\<close>

definition fix_outliers_with_bounds ::
  "fixer_state \<Rightarrow> string \<Rightarrow> cell \<Rightarrow> cell \<Rightarrow> bool list option \<Rightarrow> fixer_state \<times> nat" where
  "fix_outliers_with_bounds st col lower_bound upper_bound condition =
     (let s = getc (frame st) col;
          lower_mask = (case condition of
                          Some c \<Rightarrow> mask_and c (s_ltc s lower_bound)
                        | None \<Rightarrow> s_ltc s lower_bound);
          upper_mask = (case condition of
                          Some c \<Rightarrow> mask_and c (s_gtc s upper_bound)
                        | None \<Rightarrow> s_gtc s upper_bound);
          (st1, n1) = (if mask_any lower_mask
                       then (loc_assign col lower_mask lower_bound st, mask_sum lower_mask)
                       else (st, 0));
          (st2, n2) = (if mask_any upper_mask
                       then (loc_assign col upper_mask upper_bound st1, n1 + mask_sum upper_mask)
                       else (st1, n1))
      in (st2, n2))"

definition fix_global_outliers :: "fixer_state \<Rightarrow> string \<Rightarrow> rat \<Rightarrow> fixer_state \<times> nat" where
  "fix_global_outliers st col threshold =
     (case calculate_bounds (getc (frame st) col) threshold of
        None \<Rightarrow> (st, 0)
      | Some (lower_bound, upper_bound) \<Rightarrow>
          (let (st1, n) = fix_outliers_with_bounds st col lower_bound upper_bound None
           in (log_fixes n st1, n)))"

text \<open>
  \<open>Series.value_counts()\<close>: the non-missing values with their counts, most frequent first;
  values of equal count stay in the order of their first occurrence.
\<close>

definition value_counts :: "series \<Rightarrow> (rat \<times> nat) list" where
  "value_counts s =
     (let vs = dropna s
      in sort_key (\<lambda>(v, c). - int c)
           (map (\<lambda>v. (v, count_list vs v)) (rev (remdups (rev vs)))))"

text \<open>
  \<open>df.groupby(key)\<close>: the groups are the distinct non-missing key values in ascending
  order; a group's rows are taken from the frame as it is when the iteration starts.
\<close>

definition group_ids :: "series \<Rightarrow> rat list" where
  "group_ids key = sort (remdups (dropna key))"

definition group_rows :: "series \<Rightarrow> series \<Rightarrow> rat \<Rightarrow> series" where
  "group_rows key s group_id = map snd (filter (\<lambda>(k, v). k = Some group_id) (zip key s))"

text \<open>One iteration of the loop over the groups in \<open>_fix_group_outliers\<close>.\<close>

definition fix_group ::
  "string \<Rightarrow> string \<Rightarrow> series \<Rightarrow> series \<Rightarrow> rat \<Rightarrow> fixer_state \<times> nat \<Rightarrow> fixer_state \<times> nat" where
  "fix_group col groupby_key key0 col0 group_id acc =
     (case acc of (st, total_fix_count) \<Rightarrow>
      (let group_col = group_rows key0 col0 group_id;
           n = length group_col
       in if n < 3 then (st, total_fix_count)
          else (case value_counts group_col of
                  [] \<Rightarrow> (st, total_fix_count)
                | (expected_value, top_count) # rest \<Rightarrow>
                    if top_count \<ge> n - 2 then
                      (let group_condition =
                             mask_and (s_eq (getc (frame st) groupby_key) group_id)
                                      (s_ne (getc (frame st) col) (Some expected_value));
                           fix_count = mask_sum group_condition
                       in if fix_count > 0
                          then (loc_assign col group_condition (Some expected_value) st,
                                total_fix_count + fix_count)
                          else (st, total_fix_count))
                    else (st, total_fix_count))))"

definition fix_group_outliers ::
  "fixer_state \<Rightarrow> string \<Rightarrow> string \<Rightarrow> rat \<Rightarrow> fixer_state \<times> nat" where
  "fix_group_outliers st col groupby_key threshold =
     (let key0 = getc (frame st) groupby_key;
          col0 = getc (frame st) col;
          (st1, total_fix_count) =
             fold (fix_group col groupby_key key0 col0) (group_ids key0) (st, 0)
      in (log_fixes total_fix_count st1, total_fix_count))"

text \<open>The body of the loop over the numeric columns in \<open>OutlierFixerStrategy._fix\<close>.\<close>

definition outlier_fix_column ::
  "config \<Rightarrow> string option \<Rightarrow> string \<Rightarrow> fixer_state \<Rightarrow> fixer_state" where
  "outlier_fix_column cfg groupby_key col st =
     (if should_skip_column col (frame st) (current_dataset cfg) then st
      else (let st1 = (case groupby_key of
                         Some k \<Rightarrow> fst (fix_group_outliers st col k (outlier_threshold cfg))
                       | None \<Rightarrow> st)
            in fst (fix_global_outliers st1 col (outlier_threshold cfg))))"



text \<open>
  The same two corrections seen on the column alone; the proofs relate them to the
  functions above. \<open>consensus\<close> is the value a group is corrected to, if any.
\<close>

definition consensus :: "series \<Rightarrow> series \<Rightarrow> rat \<Rightarrow> rat option" where
  "consensus key0 col0 group_id =
     (let group_col = group_rows key0 col0 group_id;
          n = length group_col
      in if n < 3 then None
         else (case value_counts group_col of
                 [] \<Rightarrow> None
               | (expected_value, top_count) # rest \<Rightarrow>
                   if top_count \<ge> n - 2 then Some expected_value else None))"

definition group_step :: "series \<Rightarrow> series \<Rightarrow> rat \<Rightarrow> series \<Rightarrow> series" where
  "group_step key0 col0 group_id s =
     (case consensus key0 col0 group_id of
        None \<Rightarrow> s
      | Some e \<Rightarrow> loc_set s (mask_and (s_eq key0 group_id) (s_ne s (Some e))) (Some e))"

definition group_fixed :: "series \<Rightarrow> series \<Rightarrow> series" where
  "group_fixed key0 col0 = fold (group_step key0 col0) (group_ids key0) col0"

definition global_fixed :: "rat \<Rightarrow> series \<Rightarrow> series" where
  "global_fixed threshold s =
     (case calculate_bounds s threshold of
        None \<Rightarrow> s
      | Some (lower_bound, upper_bound) \<Rightarrow>
          loc_set (loc_set s (s_ltc s lower_bound) lower_bound)
            (s_gtc s upper_bound) upper_bound)"

subsection \<open>DomainLoanFixerStrategy\<close>












text \<open>\<open>if col in df.columns: fixer(df)\<close>, for a fixer that cannot raise and for one that can.\<close>

definition if_present ::
  "string \<Rightarrow> (fixer_state \<Rightarrow> fixer_state) \<Rightarrow> fixer_state \<Rightarrow> fixer_state" where
  "if_present col fixer st = (if col \<in> set (columns (frame st)) then fixer st else st)"







subsection \<open>DomainMarketFixerStrategy\<close>

definition price_cols :: "string list" where
  "price_cols = [''OpenValue'', ''CloseValue'', ''HighestValue'', ''LowestValue'']"

text \<open>\<open>df[price_cols].notna().all(axis=1)\<close>.\<close>

definition valid_rows :: "dataframe \<Rightarrow> bool list" where
  "valid_rows df =
     foldr (\<lambda>col m. mask_and (s_notna (getc df col)) m) price_cols
       (replicate (nrows df) True)"

text \<open>Row-wise \<open>max(axis=1)\<close> and \<open>min(axis=1)\<close> over the price columns, missing values skipped.\<close>

definition rows_of :: "dataframe \<Rightarrow> string list \<Rightarrow> cell list list" where
  "rows_of df cols = map (\<lambda>i. map (\<lambda>c. getc df c ! i) cols) [0..<nrows df]"

definition row_max :: "dataframe \<Rightarrow> string list \<Rightarrow> series" where
  "row_max df cols =
     map (\<lambda>r. case dropna r of [] \<Rightarrow> None | v # vs \<Rightarrow> Some (fold max vs v)) (rows_of df cols)"

definition row_min :: "dataframe \<Rightarrow> string list \<Rightarrow> series" where
  "row_min df cols =
     map (\<lambda>r. case dropna r of [] \<Rightarrow> None | v # vs \<Rightarrow> Some (fold min vs v)) (rows_of df cols)"

text \<open>Step 1 of \<open>_fix_price_relationships\<close>: swap highest and lowest where they are inverted.\<close>

definition swap_high_low :: "bool list \<Rightarrow> fixer_state \<Rightarrow> fixer_state" where
  "swap_high_low valid_mask st =
     (let invalid_high_low =
            mask_and valid_mask
              (ss_lt (getc (frame st) ''HighestValue'') (getc (frame st) ''LowestValue''))
      in if mask_any invalid_high_low then
           (let invalid_count = mask_sum invalid_high_low;
                temp = getc (frame st) ''HighestValue'';
                st1 = loc_assign_series ''HighestValue'' invalid_high_low
                        (getc (frame st) ''LowestValue'') st;
                st2 = loc_assign_series ''LowestValue'' invalid_high_low temp st1;
                still_invalid =
                  mask_and valid_mask
                    (ss_lt (getc (frame st2) ''HighestValue'') (getc (frame st2) ''LowestValue''));
                st4 = (if mask_any still_invalid then
                         (let st3 = loc_assign_series ''HighestValue'' still_invalid
                                      (row_max (frame st2) price_cols) st2
                          in loc_assign_series ''LowestValue'' still_invalid
                               (row_min (frame st3) price_cols) st3)
                       else st2)
            in log_fixes invalid_count st4)
         else st)"

text \<open>
  Step 2, for one price column: cap at the bounds from the quartiles of the column.
  \<open>max(0, x)\<close> is 0 for a NaN \<open>x\<close>.
\<close>

definition cap_price_outliers :: "string \<Rightarrow> fixer_state \<Rightarrow> fixer_state" where
  "cap_price_outliers col st =
     (let s = getc (frame st) col;
          q1 = quantile s (1 / 4);
          q3 = quantile s (3 / 4);
          mult = (if col \<noteq> ''HighestValue'' then 3 / 2 else 1);
          lower_bound = (case (q1, q3) of
                           (Some a, Some b) \<Rightarrow> Some (max 0 (a - mult * (b - a)))
                         | _ \<Rightarrow> Some 0);
          upper_bound = (case (q1, q3) of
                           (Some a, Some b) \<Rightarrow> Some (b + mult * (b - a))
                         | _ \<Rightarrow> None);
          outliers = mask_or (s_ltc s lower_bound) (s_gtc s upper_bound)
      in if mask_any outliers then
           (let st1 = loc_assign col (s_ltc (getc (frame st) col) lower_bound) lower_bound st;
                st2 = loc_assign col (s_gtc (getc (frame st1) col) upper_bound) upper_bound st1
            in log_fixes (mask_sum outliers) st2)
         else st)"

text \<open>Step 3, for the open or the close column: bring it into the band of the row.\<close>

definition clamp_to_band :: "bool list \<Rightarrow> string \<Rightarrow> fixer_state \<Rightarrow> fixer_state" where
  "clamp_to_band valid_mask col st =
     (let too_high = mask_and valid_mask
                       (ss_gt (getc (frame st) col) (getc (frame st) ''HighestValue''));
          st1 = (if mask_any too_high
                 then log_fixes (mask_sum too_high)
                        (loc_assign_series col too_high (getc (frame st) ''HighestValue'') st)
                 else st);
          too_low = mask_and valid_mask
                      (ss_lt (getc (frame st1) col) (getc (frame st1) ''LowestValue''))
      in if mask_any too_low
         then log_fixes (mask_sum too_low)
                (loc_assign_series col too_low (getc (frame st1) ''LowestValue'') st1)
         else st1)"

text \<open>\<open>_fix_price_relationships\<close>; its final check only writes to the log.\<close>

definition fix_price_relationships :: "fixer_state \<Rightarrow> fixer_state" where
  "fix_price_relationships st =
     (if \<not> list_all (\<lambda>col. col \<in> set (columns (frame st))) price_cols then st
      else (let valid_mask = valid_rows (frame st) in
            if \<not> mask_any valid_mask then st
            else (let st1 = swap_high_low valid_mask st;
                      st2 = fold cap_price_outliers price_cols st1
                  in fold (clamp_to_band valid_mask) [''OpenValue'', ''CloseValue''] st2)))"

definition fix_negative_prices :: "dtype \<Rightarrow> string \<Rightarrow> fixer_state \<Rightarrow> fixer_state" where
  "fix_negative_prices dt col st =
     (let negative_mask = s_lt (getc (frame st) col) 0
      in fix_masked negative_mask
           (loc_assign_series col negative_mask (s_abs dt (getc (frame st) col))) st)"

definition fix_interest_rates :: "fixer_state \<Rightarrow> fixer_state" where
  "fix_interest_rates st =
     (let negative_mask = s_lt (getc (frame st) ''InterestRate'') 0;
          st1 = fix_masked negative_mask
                  (loc_assign ''InterestRate'' negative_mask (Some 0)) st;
          high_mask = s_gt (getc (frame st1) ''InterestRate'') 30
      in fix_masked high_mask (loc_assign ''InterestRate'' high_mask (Some 30)) st1)"

text \<open>Dates are time stamps on the rational line; \<open>today\<close> is the value of \<open>datetime.now()\<close>.\<close>

definition fix_market_dates :: "rat \<Rightarrow> fixer_state \<Rightarrow> fixer_state" where
  "fix_market_dates today st =
     (let future_mask = s_gt (getc (frame st) ''MarketDate'') today
      in fix_masked future_mask (loc_assign ''MarketDate'' future_mask (Some today)) st)"

text \<open>
  \<open>DomainMarketFixerStrategy._fix\<close>. A price column holds a negative value at \<open>abs\<close> only
  when the price relationships have not been fixed (their capping leaves none), so the
  dtype of the column is then the one of the input frame.
\<close>

definition DomainMarketFixerStrategy_fix_impl ::
  "(string \<Rightarrow> dtype) \<Rightarrow> rat \<Rightarrow> fixer_state \<Rightarrow> fixer_state" where
  "DomainMarketFixerStrategy_fix_impl dtypes today st =
     (if df_empty (frame st) then st
      else (let st1 = (if list_all (\<lambda>col. col \<in> set (columns (frame st))) price_cols
                       then fix_price_relationships st else st);
                st2 = fold (\<lambda>col s. if_present col (fix_negative_prices (dtypes col) col) s)
                        price_cols st1;
                st3 = if_present ''InterestRate'' fix_interest_rates st2
            in if_present ''MarketDate'' (fix_market_dates today) st3))"

definition DomainMarketFixerStrategy_fix ::
  "(string \<Rightarrow> dtype) \<Rightarrow> rat \<Rightarrow> nat \<Rightarrow> dataframe \<Rightarrow> nat \<times> (exn + dataframe)" where
  "DomainMarketFixerStrategy_fix dtypes today =
     FixerStrategy_fix (\<lambda>st. Inr (DomainMarketFixerStrategy_fix_impl dtypes today st))"

subsection \<open>DataConsistencyFixerStrategy\<close>

definition fix_fraud_indicator_consistency :: "fixer_state \<Rightarrow> fixer_state" where
  "fix_fraud_indicator_consistency st =
     (let online_with_chip = mask_and (s_eq (getc (frame st) ''IsOnlineTransaction'') 1)
                                      (s_eq (getc (frame st) ''IsUsedChip'') 1);
          st1 = fix_masked online_with_chip
                  (loc_assign ''IsUsedChip'' online_with_chip (Some 0)) st;
          online_with_pin = mask_and (s_eq (getc (frame st1) ''IsOnlineTransaction'') 1)
                                     (s_eq (getc (frame st1) ''IsUsedPIN'') 1)
      in fix_masked online_with_pin (loc_assign ''IsUsedPIN'' online_with_pin (Some 0)) st1)"

definition fix_fraud_consistency :: "fixer_state \<Rightarrow> fixer_state" where
  "fix_fraud_consistency st =
     (if list_all (\<lambda>col. col \<in> set (columns (frame st)))
           [''IsFraudulent'', ''IsOnlineTransaction'', ''IsUsedChip'', ''IsUsedPIN'']
      then fix_fraud_indicator_consistency st else st)"

text \<open>
  \<open>DataConsistencyFixerStrategy._fix\<close> dispatches on the dataset name. The Loan and the
  Market branch are parameters: what they do is no part of what is verified about the
  Fraud branch.
\<close>

definition DataConsistencyFixerStrategy_fix_impl ::
  "(fixer_state \<Rightarrow> fixer_state) \<Rightarrow> (fixer_state \<Rightarrow> fixer_state) \<Rightarrow> config
     \<Rightarrow> fixer_state \<Rightarrow> fixer_state" where
  "DataConsistencyFixerStrategy_fix_impl fix_loan_consistency fix_market_consistency cfg st =
     (if df_empty (frame st) then st
      else (let dataset_name = current_dataset cfg in
            if dataset_name = ''Loan'' then fix_loan_consistency st
            else if dataset_name = ''Market'' then fix_market_consistency st
            else if dataset_name = ''Fraud'' then fix_fraud_consistency st
            else st))"

definition DataConsistencyFixerStrategy_fix ::
  "(fixer_state \<Rightarrow> fixer_state) \<Rightarrow> (fixer_state \<Rightarrow> fixer_state) \<Rightarrow> config
     \<Rightarrow> nat \<Rightarrow> dataframe \<Rightarrow> nat \<times> (exn + dataframe)" where
  "DataConsistencyFixerStrategy_fix fix_loan_consistency fix_market_consistency cfg =
     FixerStrategy_fix
       (\<lambda>st. Inr (DataConsistencyFixerStrategy_fix_impl fix_loan_consistency
                     fix_market_consistency cfg st))"

section \<open>Cache and pipeline executor (engine.py)\<close>

text \<open>
  \<open>Path.glob\<close> with a pattern of one path component, on POSIX: the component is
  translated by \<open>fnmatch.translate\<close> and matched against the names of the directory. In a
  pattern \<open>*\<close> stands for any run of characters, \<open>?\<close> for one character, \<open>[seq]\<close> for one
  character of \<open>seq\<close> and \<open>[!seq]\<close> for one character that is not in \<open>seq\<close>; a \<open>[\<close> that no
  \<open>]\<close> closes stands for itself, and so does every other character.

  \<open>find_close\<close> looks for the closing bracket; \<open>parse_class\<close> reads what follows a \<open>[\<close>: a
  leading \<open>!\<close> negates, a \<open>]\<close> that comes first belongs to \<open>seq\<close>. In \<open>seq\<close>, \<open>a-b\<close> is the range
  of the characters from \<open>a\<close> to \<open>b\<close> (none when \<open>b\<close> comes before \<open>a\<close>), and a \<open>-\<close> that comes
  first, last or right after a range stands for itself.
\<close>

fun find_close :: "string \<Rightarrow> (string \<times> string) option" where
  "find_close [] = None"
| "find_close (c # cs) =
     (if c = CHR '']'' then Some ([], cs)
      else (case find_close cs of None \<Rightarrow> None | Some (stuff, rest) \<Rightarrow> Some (c # stuff, rest)))"

definition parse_class :: "string \<Rightarrow> (bool \<times> string \<times> string) option" where
  "parse_class pat =
     (let (negated, pat1) = (case pat of
                               [] \<Rightarrow> (False, pat)
                             | c # cs \<Rightarrow> if c = CHR ''!'' then (True, cs) else (False, pat));
          (first, pat2) = (case pat1 of
                             [] \<Rightarrow> ([], pat1)
                           | c # cs \<Rightarrow> if c = CHR '']'' then ([c], cs) else ([], pat1))
      in case find_close pat2 of
           None \<Rightarrow> None
         | Some (stuff, rest) \<Rightarrow> Some (negated, first @ stuff, rest))"

fun in_class :: "char \<Rightarrow> string \<Rightarrow> bool" where
  "in_class c (a # h # b # stuff) =
     (if h = CHR ''-'' then (a \<le> c \<and> c \<le> b) \<or> in_class c stuff
      else c = a \<or> in_class c (h # b # stuff))"
| "in_class c (a # stuff) = (c = a \<or> in_class c stuff)"
| "in_class c [] = False"

datatype glob_token = AnyRun | AnyChar | Literal char | OneOf bool string

function translate :: "string \<Rightarrow> glob_token list" where
  "translate [] = []"
| "translate (c # pat) =
     (if c = CHR ''*'' then AnyRun # translate pat
      else if c = CHR ''?'' then AnyChar # translate pat
      else if c = CHR ''['' then
        (case parse_class pat of
           None \<Rightarrow> Literal c # translate pat
         | Some (negated, stuff, rest) \<Rightarrow> OneOf negated stuff # translate rest)
      else Literal c # translate pat)"
  by pat_completeness auto

termination
proof (relation "measure length")
  show "wf (measure (length :: string \<Rightarrow> nat))" by simp
next
  fix c :: char and pat x2 negated y stuff rest
  assume "parse_class pat = Some x2" "(negated, y) = x2" "(stuff, rest) = y"
  then have p: "parse_class pat = Some (negated, stuff, rest)" by simp
  have close: "find_close q = Some (a, r) \<Longrightarrow> length r < length q" for q a r
    by (induction q arbitrary: a) (auto split: if_splits option.splits)
  from p have "length rest < Suc (length pat)"
    by (auto simp: parse_class_def Let_def split: list.splits if_splits option.splits prod.splits
          dest!: close)
  then show "(rest, c # pat) \<in> measure length" by simp
qed simp_all

text \<open>
  Matching a name against the translated pattern. The names are paths relative to the
  directory; a pattern of one component is matched against the entries of the directory
  itself, so nothing in it matches across a path separator.
\<close>

fun match_tokens :: "glob_token list \<Rightarrow> string \<Rightarrow> bool" where
  "match_tokens [] s = (s = [])"
| "match_tokens (AnyRun # ts) s =
     list_ex (\<lambda>k. CHR ''/'' \<notin> set (take k s) \<and> match_tokens ts (drop k s))
       [0..<Suc (length s)]"
| "match_tokens (AnyChar # ts) s =
     (case s of [] \<Rightarrow> False | c # cs \<Rightarrow> c \<noteq> CHR ''/'' \<and> match_tokens ts cs)"
| "match_tokens (Literal p # ts) s =
     (case s of [] \<Rightarrow> False | c # cs \<Rightarrow> c = p \<and> match_tokens ts cs)"
| "match_tokens (OneOf negated stuff # ts) s =
     (case s of [] \<Rightarrow> False
              | c # cs \<Rightarrow> c \<noteq> CHR ''/'' \<and> (in_class c stuff \<noteq> negated) \<and> match_tokens ts cs)"

definition glob_match :: "string \<Rightarrow> string \<Rightarrow> bool" where
  "glob_match pat s = match_tokens (translate pat) s"

text \<open>
  A name that \<open>Path.glob\<close> reads as itself: none of the characters \<open>*\<close>, \<open>?\<close> and \<open>[\<close>, by
  which \<open>pathlib\<close> tells a wildcard pattern, and no path separator.
\<close>

definition no_wildcard :: "string \<Rightarrow> bool" where
  "no_wildcard p = (CHR ''*'' \<notin> set p \<and> CHR ''?'' \<notin> set p \<and> CHR ''['' \<notin> set p
                    \<and> CHR ''/'' \<notin> set p)"

text \<open>
  The cache manager: the switch \<open>enable_caching\<close>, the memory tier (a dictionary from
  cache key to frame) and the disk tier (the files below the cache directory by their
  path relative to it; a file that \<open>read_pickle\<close> cannot read holds \<open>None\<close>). \<open>writable\<close>
  tells for which paths \<open>to_pickle\<close> succeeds.
\<close>

record CacheManager =
  enabled :: bool
  memory_cache :: "string \<rightharpoonup> dataframe"
  cache_dir :: "string \<rightharpoonup> dataframe option"
  writable :: "string \<Rightarrow> bool"

definition cache_key :: "string \<Rightarrow> string \<Rightarrow> string" where
  "cache_key dataset_name step_name = dataset_name @ ''_'' @ step_name"

definition get_from_cache ::
  "CacheManager \<Rightarrow> string \<Rightarrow> string \<Rightarrow> CacheManager \<times> dataframe option" where
  "get_from_cache cm dataset_name step_name =
     (if \<not> enabled cm then (cm, None)
      else (let key = cache_key dataset_name step_name in
            case memory_cache cm key of
              Some df \<Rightarrow> (cm, Some df)
            | None \<Rightarrow>
                (case cache_dir cm (key @ ''.pkl'') of
                   Some (Some df) \<Rightarrow> (cm\<lparr>memory_cache := (memory_cache cm)(key \<mapsto> df)\<rparr>, Some df)
                 | Some None \<Rightarrow> (cm, None)
                 | None \<Rightarrow> (cm, None))))"

definition save_to_cache ::
  "CacheManager \<Rightarrow> dataframe \<Rightarrow> string \<Rightarrow> string \<Rightarrow> CacheManager" where
  "save_to_cache cm df dataset_name step_name =
     (if \<not> enabled cm \<or> df_empty df then cm
      else (let key = cache_key dataset_name step_name;
                cm1 = cm\<lparr>memory_cache := (memory_cache cm)(key \<mapsto> df)\<rparr>
            in if writable cm (key @ ''.pkl'')
               then cm1\<lparr>cache_dir := (cache_dir cm1)(key @ ''.pkl'' \<mapsto> Some df)\<rparr>
               else cm1))"

text \<open>
  \<open>clear_cache\<close>; the argument is \<open>None\<close> or a name, and \<open>if dataset_name:\<close> is false for
  both \<open>None\<close> and the empty string.
\<close>

definition clear_cache :: "CacheManager \<Rightarrow> string option \<Rightarrow> CacheManager" where
  "clear_cache cm dataset_name =
     (if \<not> enabled cm then cm
      else (case dataset_name of
              Some n \<Rightarrow>
                if n \<noteq> [] then
                  cm\<lparr>memory_cache :=
                       (\<lambda>k. if startswith k (n @ ''_'') then None else memory_cache cm k),
                     cache_dir :=
                       (\<lambda>f. if glob_match (n @ ''_*.pkl'') f then None else cache_dir cm f)\<rparr>
                else
                  cm\<lparr>memory_cache := Map.empty,
                     cache_dir := (\<lambda>f. if glob_match ''*.pkl'' f then None else cache_dir cm f)\<rparr>
            | None \<Rightarrow>
                cm\<lparr>memory_cache := Map.empty,
                   cache_dir := (\<lambda>f. if glob_match ''*.pkl'' f then None else cache_dir cm f)\<rparr>))"

text \<open>
  The steps of the executor. A \<open>DataValidationStep\<close> carries its flag \<open>post_fixing\<close> and the
  results of its last run; every other step is a name and an \<open>execute\<close> that may raise.
\<close>

datatype pipeline_step =
    DataValidationStep bool "results option"
  | OtherStep string "dataframe \<Rightarrow> exn + dataframe"

fun step_name :: "pipeline_step \<Rightarrow> string" where
  "step_name (DataValidationStep post_fixing stored) =
     (if post_fixing then ''DataValidation_Post'' else ''DataValidation_Pre'')"
| "step_name (OtherStep n f) = n"

text \<open>
  The executor: its steps, the loader (which returns an empty frame on any failure), the
  saver (which returns whether it succeeded), the cache manager, the validator shared by
  the validation steps, and the dataset name.
\<close>

record PipelineExecutor =
  pe_steps :: "pipeline_step list"
  loader_load :: "string \<Rightarrow> dataframe"
  saver_save :: "dataframe \<Rightarrow> string \<Rightarrow> bool"
  cache_manager :: CacheManager
  pe_validator :: ValidationPipeline
  pe_dataset_name :: string

text \<open>
  What \<open>execute\<close> hands to its caller: the triple, or the bare boolean of
  \<open>return False\<close>.
\<close>

datatype execute_result =
    Triple bool "dataframe option" "results option"
  | Bare bool

text \<open>How the loop over the steps ends.\<close>

datatype loop_exit =
    Completed dataframe "results option"
  | EmptyFrame
  | Raised exn "results option"

text \<open>
  The loop over the steps: cache lookup, else execution and caching; the validation
  results of a validation step are read from the step object in both cases; an empty
  frame leaves the loop at once. The checkpoint written when \<open>checkpointing\<close> is on only
  calls the saver and ignores its answer, so it leaves no trace here.
\<close>

fun run_steps ::
  "string \<Rightarrow> pipeline_step list \<Rightarrow> dataframe \<Rightarrow> CacheManager \<Rightarrow> ValidationPipeline
     \<Rightarrow> results option \<Rightarrow> loop_exit" where
  "run_steps ds [] df cm v last_validation_results = Completed df last_validation_results"
| "run_steps ds (step # rest) df cm v last_validation_results =
     (case get_from_cache cm ds (step_name step) of
        (cm1, Some cached_df) \<Rightarrow>
          (let lvr = (case step of DataValidationStep post stored \<Rightarrow> stored
                                 | OtherStep n f \<Rightarrow> last_validation_results)
           in if df_empty cached_df then EmptyFrame
              else run_steps ds rest cached_df cm1 v lvr)
      | (cm1, None) \<Rightarrow>
          (case step of
             DataValidationStep post stored \<Rightarrow>
               (case DataValidationStep_execute v stored df of
                  ((v', stored'), df') \<Rightarrow>
                    if df_empty df' then EmptyFrame
                    else run_steps ds rest df' (save_to_cache cm1 df' ds (step_name step))
                           v' stored')
           | OtherStep n f \<Rightarrow>
               (case f df of
                  Inl e \<Rightarrow> Raised e last_validation_results
                | Inr df' \<Rightarrow>
                    if df_empty df' then EmptyFrame
                    else run_steps ds rest df' (save_to_cache cm1 df' ds (step_name step))
                           v last_validation_results)))"

text \<open>\<open>PipelineExecutor.execute\<close>.\<close>

definition execute :: "PipelineExecutor \<Rightarrow> string \<Rightarrow> string \<Rightarrow> execute_result" where
  "execute ex input_path output_path =
     (let df = loader_load ex input_path in
      if df_empty df then Triple False None None
      else (case run_steps (pe_dataset_name ex) (pe_steps ex) df (cache_manager ex)
                   (pe_validator ex) None of
              EmptyFrame \<Rightarrow> Bare False
            | Raised e lvr \<Rightarrow> Triple False None lvr
            | Completed final_df lvr \<Rightarrow>
                Triple (saver_save ex final_df output_path) (Some final_df) lvr))"

section \<open>Verified properties\<close>

subsection \<open>Frames, columns and masks\<close>

lemma columns_setc: "columns (setc df c s) = columns df"
  by (induction df) (auto simp: columns_def setc_def)

lemma getc_setc_same: "c \<in> set (columns df) \<Longrightarrow> getc (setc df c s) c = s"
  by (induction df) (auto simp: columns_def setc_def getc_def)

lemma getc_setc_other: "c' \<noteq> c \<Longrightarrow> getc (setc df c s) c' = getc df c'"
  by (induction df) (auto simp: setc_def getc_def)

lemma getc_in_set: "c \<in> set (columns df) \<Longrightarrow> (c, getc df c) \<in> set df"
  by (induction df) (auto simp: columns_def getc_def)

lemma length_getc: "wf_df df \<Longrightarrow> c \<in> set (columns df) \<Longrightarrow> length (getc df c) = nrows df"
  using getc_in_set[of c df] by (auto simp: wf_df_def list_all_iff)

lemma frame_log_fixes: "frame (log_fixes n st) = frame st"
  by (simp add: log_fixes_def)

lemma mask_sum_0: "mask_sum m = 0 \<Longrightarrow> i < length m \<Longrightarrow> \<not> m ! i"
proof -
  assume "mask_sum m = 0" and i: "i < length m"
  then have "\<forall>b\<in>set m. \<not> b" by (simp add: mask_sum_def filter_empty_conv)
  with i show ?thesis using nth_mem by blast
qed

lemma mask_any_iff: "mask_any m = (mask_sum m > 0)"
  by (auto simp: mask_any_def mask_sum_def list_ex_iff filter_empty_conv)

lemma length_loc_set: "length (loc_set s m v) = min (length s) (length m)"
  by (simp add: loc_set_def)

lemma nth_loc_set:
  "i < length s \<Longrightarrow> i < length m \<Longrightarrow> loc_set s m v ! i = (if m ! i then v else s ! i)"
  by (simp add: loc_set_def)



lemma loc_set_none: "mask_sum m = 0 \<Longrightarrow> length m = length s \<Longrightarrow> loc_set s m v = s"
  by (rule nth_equalityI) (auto simp: length_loc_set nth_loc_set dest: mask_sum_0)


lemma columns_loc_assign: "columns (frame (loc_assign col m v st)) = columns (frame st)"
  by (simp add: loc_assign_def columns_setc)


lemma getc_loc_assign_other:
  "c \<noteq> col \<Longrightarrow> getc (frame (loc_assign col m v st)) c = getc (frame st) c"
  by (simp add: loc_assign_def getc_setc_other)


text \<open>The guarded scalar assignment, seen on the column it writes.\<close>

lemma getc_fix_masked_scalar:
  assumes "col \<in> set (columns (frame st))" "length m = length (getc (frame st) col)"
  shows "getc (frame (fix_masked m (loc_assign col m v) st)) col
           = loc_set (getc (frame st) col) m v"
proof (cases "mask_sum m > 0")
  case True
  then show ?thesis using assms(1)
    by (simp add: fix_masked_def frame_log_fixes loc_assign_def getc_setc_same)
next
  case False
  then have "loc_set (getc (frame st) col) m v = getc (frame st) col"
    using assms(2) by (simp add: loc_set_none)
  with False show ?thesis by (simp add: fix_masked_def)
qed


lemma columns_fix_masked_scalar:
  "columns (frame (fix_masked m (loc_assign col m' v) st)) = columns (frame st)"
  by (simp add: fix_masked_def frame_log_fixes columns_loc_assign)


lemma getc_fix_masked_scalar_other:
  "c \<noteq> col \<Longrightarrow> getc (frame (fix_masked m (loc_assign col m' v) st)) c = getc (frame st) c"
  by (simp add: fix_masked_def frame_log_fixes getc_loc_assign_other)


lemma length_masks [simp]:
  "length (s_lt s c) = length s" "length (s_gt s c) = length s" "length (s_eq s c) = length s"
  "length (s_ne s x) = length s" "length (s_notna s) = length s" "length (s_isna s) = length s"
  "length (s_ltc s x) = length s" "length (s_gtc s x) = length s"
  "length (mask_and m1 m2) = min (length m1) (length m2)"
  "length (mask_or m1 m2) = min (length m1) (length m2)"
  "length (ss_lt s t) = min (length s) (length t)"
  "length (ss_gt s t) = min (length s) (length t)"
  "length (s_abs dt s) = length s"
  by (simp_all add: s_lt_def s_gt_def s_eq_def s_ne_def s_notna_def s_isna_def s_ltc_def
      s_gtc_def mask_and_def mask_or_def ss_lt_def ss_gt_def s_abs_def)

lemma nth_masks:
  "i < length s \<Longrightarrow> s_lt s c ! i = (case s ! i of None \<Rightarrow> False | Some v \<Rightarrow> v < c)"
  "i < length s \<Longrightarrow> s_gt s c ! i = (case s ! i of None \<Rightarrow> False | Some v \<Rightarrow> v > c)"
  "i < length s \<Longrightarrow> s_eq s c ! i = (s ! i = Some c)"
  "i < length s \<Longrightarrow> s_ltc s x ! i = cell_lt (s ! i) x"
  "i < length s \<Longrightarrow> s_gtc s x ! i = cell_lt x (s ! i)"
  "i < length s \<Longrightarrow> s_abs dt s ! i
     = map_option (\<lambda>v. if dt = Int64 \<and> v = - (2 ^ 63) then v else \<bar>v\<bar>) (s ! i)"
  by (auto simp: s_lt_def s_gt_def s_eq_def s_ltc_def s_gtc_def s_abs_def split: option.splits)

lemma nth_mask_and:
  "i < length m1 \<Longrightarrow> i < length m2 \<Longrightarrow> mask_and m1 m2 ! i = (m1 ! i \<and> m2 ! i)"
  by (simp add: mask_and_def)


subsection \<open>Validation\<close>

lemma count_severities_eq:
  "count_severities xs (c, w) =
     (c + count_severity ''critical'' xs, w + count_severity ''warning'' xs)"
  by (induction xs arbitrary: c w) (auto simp: count_severity_def)

lemma process_step_counts:
  assumes "critical_count l = count_severity ''critical'' (all_issues l)"
      and "warning_count l = count_severity ''warning'' (all_issues l)"
  shows "critical_count (process_step df step l)
           = count_severity ''critical'' (all_issues (process_step df step l))
       \<and> warning_count (process_step df step l)
           = count_severity ''warning'' (all_issues (process_step df step l))"
  using assms
  by (auto simp: process_step_def count_severities_eq count_severity_def split: sum.splits)

lemma fold_process_step_counts:
  assumes "critical_count l = count_severity ''critical'' (all_issues l)"
      and "warning_count l = count_severity ''warning'' (all_issues l)"
  shows "critical_count (fold (process_step df) ss l)
           = count_severity ''critical'' (all_issues (fold (process_step df) ss l))
       \<and> warning_count (fold (process_step df) ss l)
           = count_severity ''warning'' (all_issues (fold (process_step df) ss l))"
  using assms
proof (induction ss arbitrary: l)
  case Nil
  then show ?case by simp
next
  case (Cons s ss)
  from process_step_counts[OF Cons.prems] show ?case
    by (simp add: Cons.IH)
qed

lemma process_nonempty:
  assumes "\<not> df_empty df"
  shows "dataset_quality_score (snd (process vp df)) =
      (let l = fold (process_step df) (vp_steps vp)
     \<lparr>l_status = ''passed'', l_steps = [], all_issues = [],
      combined_metrics = Map.empty, critical_count = 0, warning_count = 0\<rparr> in
       if all_issues l \<noteq> [] then
         max 0 (100 - (int (critical_count l) * 10 + int (warning_count l) * 2)) else 100)"
   and "issues (snd (process vp df)) = all_issues (fold (process_step df) (vp_steps vp)
     \<lparr>l_status = ''passed'', l_steps = [], all_issues = [],
      combined_metrics = Map.empty, critical_count = 0, warning_count = 0\<rparr>)"
  using assms by (simp_all add: process_def Let_def)

lemma score_arith:
  fixes c w :: nat
  shows "max 0 (100 - (int c * 10 + int w * 2)) = max 0 (100 - 10 * int c - 2 * int w)"
  by auto

lemma fold_process_step_issues:
  "all_issues (fold (process_step df) ss l) =
     all_issues l @ concat (map (\<lambda>step. case validate step df of
                                          Inl e \<Rightarrow> [] | Inr r \<Rightarrow> sr_issues r) ss)"
  by (induction ss arbitrary: l) (auto simp: process_step_def split: sum.splits prod.splits)

text \<open>
  C2. On a frame that is not empty, the issues of a validation run are the issues that
  the strategies of the pipeline report on the frame, one strategy after the other (a
  strategy whose \<open>validate\<close> raises reports none), and the combined quality score is
  \<open>max(0, 100 - 10 * critical_count - 2 * warning_count)\<close> over these issues. On an empty
  frame no strategy runs and the score stays at 100. The score lies between 0 and 100
  whatever the number of issues.
\<close>

theorem quality_score_formula:
  "(\<not> df_empty df \<longrightarrow>
      issues (snd (process vp df))
        = concat (map (\<lambda>step. case validate step df of Inl e \<Rightarrow> [] | Inr r \<Rightarrow> sr_issues r)
                    (vp_steps vp))
      \<and> dataset_quality_score (snd (process vp df)) =
        max 0 (100
          - 10 * int (count_severity ''critical''
                   (concat (map (\<lambda>step. case validate step df of
                                           Inl e \<Rightarrow> [] | Inr r \<Rightarrow> sr_issues r) (vp_steps vp))))
          - 2 * int (count_severity ''warning''
                   (concat (map (\<lambda>step. case validate step df of
                                           Inl e \<Rightarrow> [] | Inr r \<Rightarrow> sr_issues r) (vp_steps vp))))))
   \<and> (df_empty df \<longrightarrow>
        steps (snd (process vp df)) = [] \<and> dataset_quality_score (snd (process vp df)) = 100)
   \<and> 0 \<le> dataset_quality_score (snd (process vp df))
   \<and> dataset_quality_score (snd (process vp df)) \<le> 100"
proof (cases "df_empty df")
  case True
  then show ?thesis by (simp add: process_def Let_def)
next
  case False
  define l where "l = fold (process_step df) (vp_steps vp)
     \<lparr>l_status = ''passed'', l_steps = [], all_issues = [],
      combined_metrics = Map.empty, critical_count = 0, warning_count = 0\<rparr>"
  define acc where "acc = concat (map (\<lambda>step. case validate step df of
                                           Inl e \<Rightarrow> [] | Inr r \<Rightarrow> sr_issues r) (vp_steps vp))"
  define c where "c = count_severity ''critical'' acc"
  define w where "w = count_severity ''warning'' acc"
  have all: "all_issues l = acc"
    unfolding l_def acc_def by (simp add: fold_process_step_issues)
  have cnt: "critical_count l = c \<and> warning_count l = w"
    unfolding c_def w_def all[symmetric] l_def
    by (rule fold_process_step_counts) (simp_all add: count_severity_def)
  have score: "dataset_quality_score (snd (process vp df)) =
      (if acc \<noteq> [] then max 0 (100 - (int c * 10 + int w * 2)) else 100)"
    using process_nonempty(1)[OF False, of vp] cnt all
    by (simp add: Let_def l_def[symmetric])
  have iss: "issues (snd (process vp df)) = acc"
    using process_nonempty(2)[OF False, of vp] all by (simp add: l_def)
  have nil: "acc = [] \<Longrightarrow> c = 0 \<and> w = 0"
    by (simp add: c_def w_def count_severity_def)
  have eq: "dataset_quality_score (snd (process vp df)) = max 0 (100 - 10 * int c - 2 * int w)"
  proof (cases "acc = []")
    case True
    then have "c = 0" "w = 0" using nil by simp_all
    with True score show ?thesis by simp
  next
    case nonempty: False
    with score show ?thesis by (simp add: score_arith)
  qed
  have rng: "0 \<le> max 0 (100 - 10 * int c - 2 * int w)"
            "max 0 (100 - 10 * int c - 2 * int w) \<le> 100"
    by auto
  show ?thesis
    using False eq rng iss unfolding c_def w_def acc_def by simp
qed

text \<open>
  The formula at a run of three strategies, of which the first reports a critical issue
  and a warning, the second raises and the third reports a critical issue (score 78); at
  a run with one strategy reporting twelve critical issues and one warning (the score is
  floored at 0); and at an empty frame.
\<close>

theorem quality_score_formula_witness:
  "\<not> df_empty [(''Age'', [Some 30])]
   \<and> dataset_quality_score (snd (process
        \<lparr>vp_steps =
           [strategy_of ''SchemaValidationStrategy''
              (\<lambda>df. Inr \<lparr>st_issues =
                  [\<lparr>issue_type = ''missing_columns'', message = ''m'',
                    severity = ''critical'', field = None\<rparr>,
                   \<lparr>issue_type = ''type_mismatch'', message = ''t'',
                    severity = ''warning'', field = Some ''Age''\<rparr>],
                 st_tests_passed = 0, st_tests_failed = 2,
                 st_quality_metrics = Map.empty\<rparr>),
            \<lparr>name = ''Broken'', validate = (\<lambda>df. Inl (Exception ''boom''))\<rparr>,
            strategy_of ''DomainValidationStrategy''
              (\<lambda>df. Inr \<lparr>st_issues =
                  [\<lparr>issue_type = ''invalid_age'', message = ''a'',
                    severity = ''critical'', field = Some ''Age''\<rparr>],
                 st_tests_passed = 0, st_tests_failed = 1,
                 st_quality_metrics = Map.empty\<rparr>)],
         validation_count = 0\<rparr>
        [(''Age'', [Some 30])])) = 78
   \<and> dataset_quality_score (snd (process
        \<lparr>vp_steps = [strategy_of ''SchemaValidationStrategy''
           (\<lambda>df. Inr \<lparr>st_issues =
               replicate 12 \<lparr>issue_type = ''missing_columns'', message = ''m'',
                             severity = ''critical'', field = None\<rparr>
               @ [\<lparr>issue_type = ''type_mismatch'', message = ''t'',
                    severity = ''warning'', field = Some ''Age''\<rparr>],
              st_tests_passed = 0, st_tests_failed = 13,
              st_quality_metrics = Map.empty\<rparr>)],
         validation_count = 0\<rparr>
        [(''Age'', [Some 30])])) = 0
   \<and> df_empty []
   \<and> dataset_quality_score (snd (process \<lparr>vp_steps = [], validation_count = 0\<rparr> [])) = 100"
proof -
  let ?vp3 = "\<lparr>vp_steps =
           [strategy_of ''SchemaValidationStrategy''
              (\<lambda>df. Inr \<lparr>st_issues =
                  [\<lparr>issue_type = ''missing_columns'', message = ''m'',
                    severity = ''critical'', field = None\<rparr>,
                   \<lparr>issue_type = ''type_mismatch'', message = ''t'',
                    severity = ''warning'', field = Some ''Age''\<rparr>],
                 st_tests_passed = 0, st_tests_failed = 2,
                 st_quality_metrics = Map.empty\<rparr>),
            \<lparr>name = ''Broken'', validate = (\<lambda>df. Inl (Exception ''boom''))\<rparr>,
            strategy_of ''DomainValidationStrategy''
              (\<lambda>df. Inr \<lparr>st_issues =
                  [\<lparr>issue_type = ''invalid_age'', message = ''a'',
                    severity = ''critical'', field = Some ''Age''\<rparr>],
                 st_tests_passed = 0, st_tests_failed = 1,
                 st_quality_metrics = Map.empty\<rparr>)],
         validation_count = 0\<rparr>"
  let ?vp = "\<lparr>vp_steps = [strategy_of ''SchemaValidationStrategy''
           (\<lambda>df. Inr \<lparr>st_issues =
               replicate 12 \<lparr>issue_type = ''missing_columns'', message = ''m'',
                             severity = ''critical'', field = None\<rparr>
               @ [\<lparr>issue_type = ''type_mismatch'', message = ''t'',
                    severity = ''warning'', field = Some ''Age''\<rparr>],
              st_tests_passed = 0, st_tests_failed = 13,
              st_quality_metrics = Map.empty\<rparr>)],
         validation_count = 0\<rparr>"
  let ?df = "[(''Age'', [Some (30::rat)])]"
  have ne: "\<not> df_empty ?df" by (simp add: df_empty_def nrows_def)
  have e: "df_empty []" by (simp add: df_empty_def)
  from quality_score_formula[of ?df ?vp3] ne
  have a: "dataset_quality_score (snd (process ?vp3 ?df)) = 78"
    by (simp add: count_severity_def strategy_of_def ValidationStrategy_validate_def)
  from quality_score_formula[of ?df ?vp] ne
  have b: "dataset_quality_score (snd (process ?vp ?df)) = 0"
    by (simp add: count_severity_def strategy_of_def ValidationStrategy_validate_def)
  from quality_score_formula[of "[]" "\<lparr>vp_steps = [], validation_count = 0\<rparr>"] e
  have c: "dataset_quality_score (snd (process \<lparr>vp_steps = [], validation_count = 0\<rparr> [])) = 100"
    by simp
  from ne a b e c show ?thesis by (intro conjI)
qed

text \<open>
  C10. Both validation steps hand back the frame they were given: the step of the
  executor (whatever the strategies of its validator do, raising included) and the step of
  the validation pipeline (for every strategy derived from \<open>ValidationStrategy\<close>, whose
  \<open>validate\<close> catches what its hooks raise). Validation only records results on the side.
\<close>

theorem validation_steps_return_input:
  "snd (DataValidationStep_execute validator last_results df) = df
   \<and> ValidationPipelineStep_execute (strategy_of n validate_impl) df = Inr df"
  by (simp add: DataValidationStep_execute_def ValidationPipelineStep_execute_def
      strategy_of_def split: prod.splits)

subsection \<open>The common contract of the fixers\<close>

text \<open>
  C7. \<open>fix\<close> never raises; when the fixing logic raises, the input frame is returned; an
  empty frame is returned as it is; and the counter is reset at the start of the call, so
  that the fixing logic starts from 0 and the counter left by an earlier call has no
  influence on the result.
\<close>

theorem fix_contract:
  "(\<exists>t. snd (FixerStrategy_fix fix_impl old_count df) = Inr t)
   \<and> (\<forall>e c. fix_impl \<lparr>frame = df, fix_count = 0\<rparr> = Inl (e, c)
          \<longrightarrow> snd (FixerStrategy_fix fix_impl old_count df) = Inr df)
   \<and> (df_empty df \<longrightarrow> FixerStrategy_fix fix_impl old_count df = (0, Inr df))
   \<and> (\<forall>st. \<not> df_empty df \<and> fix_impl \<lparr>frame = df, fix_count = 0\<rparr> = Inr st
          \<longrightarrow> FixerStrategy_fix fix_impl old_count df = (fix_count st, Inr (frame st)))
   \<and> FixerStrategy_fix fix_impl old_count df = FixerStrategy_fix fix_impl 0 df"
  by (auto simp: FixerStrategy_fix_def Let_def split: sum.splits prod.splits)

text \<open>
  A fixer whose logic raises after three logged fixes, called with a counter left at 7
  on a frame of one row; a fixer that returns, on the same frame; and the empty frame.
\<close>

theorem fix_contract_witness:
  "snd (FixerStrategy_fix (\<lambda>st. Inl (Exception ''boom'', 3)) 7 [(''Age'', [Some (-1)])])
     = Inr [(''Age'', [Some (-1)])]
   \<and> FixerStrategy_fix (\<lambda>st. Inr (log_fixes 1 (st\<lparr>frame := [(''Age'', [Some 18])]\<rparr>))) 7
        [(''Age'', [Some 5])] = (1, Inr [(''Age'', [Some 18])])
   \<and> FixerStrategy_fix (\<lambda>st. Inl (Exception ''boom'', 3)) 7 [] = (0, Inr [])"
proof -
  have a: "snd (FixerStrategy_fix (\<lambda>st. Inl (Exception ''boom'', 3)) 7 [(''Age'', [Some (-1)])])
     = Inr [(''Age'', [Some (-1)])]"
    using fix_contract[of "\<lambda>st. Inl (Exception ''boom'', 3)" 7 "[(''Age'', [Some (-1)])]"]
    by blast
  have ne: "\<not> df_empty [(''Age'', [Some 5])]" by (simp add: df_empty_def nrows_def)
  have b: "FixerStrategy_fix (\<lambda>st. Inr (log_fixes 1 (st\<lparr>frame := [(''Age'', [Some 18])]\<rparr>))) 7
        [(''Age'', [Some 5])] = (1, Inr [(''Age'', [Some 18])])"
    using fix_contract[of "\<lambda>st. Inr (log_fixes 1 (st\<lparr>frame := [(''Age'', [Some 18])]\<rparr>))" 7
        "[(''Age'', [Some 5])]"] ne
    by (auto simp: log_fixes_def)
  have c: "FixerStrategy_fix (\<lambda>st. Inl (Exception ''boom'', 3)) 7 [] = (0, Inr [])"
    using fix_contract[of "\<lambda>st. Inl (Exception ''boom'', 3)" 7 "[]"]
    by (auto simp: df_empty_def)
  from a b c show ?thesis by simp
qed

subsection \<open>Cache\<close>

lemma startswith_take: "startswith s p = (take (length p) s = p)"
  by (induction s p rule: startswith.induct) auto

lemma startswith_append: "startswith s p = (\<exists>r. s = p @ r)"
  unfolding startswith_take
  by (metis append_eq_conv_conj append_take_drop_id)

lemma translate_literal:
  "CHR ''*'' \<notin> set p \<Longrightarrow> CHR ''?'' \<notin> set p \<Longrightarrow> CHR ''['' \<notin> set p
     \<Longrightarrow> translate (p @ q) = map Literal p @ translate q"
  by (induction p) auto

lemma match_literal_prefix:
  "match_tokens (map Literal p @ ts) s = (\<exists>r. s = p @ r \<and> match_tokens ts r)"
proof (induction p arbitrary: s)
  case Nil
  then show ?case by simp
next
  case (Cons c p)
  show ?case
  proof (cases s)
    case Nil
    then show ?thesis by simp
  next
    case (Cons d ds)
    then show ?thesis using Cons.IH[of ds] by auto
  qed
qed

lemma match_literal: "match_tokens (map Literal p) s = (s = p)"
  using match_literal_prefix[of p "[]" s] by auto

lemma match_any_run:
  "match_tokens (AnyRun # ts) s
     = (\<exists>k\<le>length s. CHR ''/'' \<notin> set (take k s) \<and> match_tokens ts (drop k s))"
proof -
  have "match_tokens (AnyRun # ts) s
          = (\<exists>k\<in>set [0..<Suc (length s)].
               CHR ''/'' \<notin> set (take k s) \<and> match_tokens ts (drop k s))"
    by (simp add: list_ex_iff del: upt_Suc)
  also have "\<dots> = (\<exists>k\<le>length s. CHR ''/'' \<notin> set (take k s) \<and> match_tokens ts (drop k s))"
    by (auto simp del: upt_Suc simp add: less_Suc_eq_le)
  finally show ?thesis .
qed

lemma match_any_run_literal:
  "match_tokens (AnyRun # map Literal q) s = (\<exists>m. s = m @ q \<and> CHR ''/'' \<notin> set m)"
proof -
  have "(\<exists>k\<le>length s. CHR ''/'' \<notin> set (take k s) \<and> drop k s = q)
          = (\<exists>m. s = m @ q \<and> CHR ''/'' \<notin> set m)"
  proof
    assume "\<exists>k\<le>length s. CHR ''/'' \<notin> set (take k s) \<and> drop k s = q"
    then obtain k where k: "CHR ''/'' \<notin> set (take k s)" "drop k s = q" by blast
    then have "s = take k s @ q" by (metis append_take_drop_id)
    with k(1) show "\<exists>m. s = m @ q \<and> CHR ''/'' \<notin> set m" by blast
  next
    assume "\<exists>m. s = m @ q \<and> CHR ''/'' \<notin> set m"
    then obtain m where m: "s = m @ q" "CHR ''/'' \<notin> set m" by blast
    then have "length m \<le> length s \<and> CHR ''/'' \<notin> set (take (length m) s)
                 \<and> drop (length m) s = q"
      by simp
    then show "\<exists>k\<le>length s. CHR ''/'' \<notin> set (take k s) \<and> drop k s = q" by blast
  qed
  then show ?thesis by (simp only: match_any_run match_literal)
qed

lemma translate_suffix: "translate ''*.pkl'' = AnyRun # map Literal ''.pkl''"
  by simp

lemma glob_dataset_files:
  assumes "no_wildcard n"
  shows "glob_match (n @ ''_*.pkl'') f
           = (\<exists>m. f = n @ ''_'' @ m @ ''.pkl'' \<and> CHR ''/'' \<notin> set m)"
proof -
  have lit: "CHR ''*'' \<notin> set (n @ ''_'')" "CHR ''?'' \<notin> set (n @ ''_'')"
            "CHR ''['' \<notin> set (n @ ''_'')"
    using assms by (simp_all add: no_wildcard_def)
  have "translate ((n @ ''_'') @ ''*.pkl'') = map Literal (n @ ''_'') @ translate ''*.pkl''"
    using lit by (rule translate_literal)
  then have tr: "translate (n @ ''_*.pkl'')
                   = map Literal (n @ ''_'') @ AnyRun # map Literal ''.pkl''"
    by (simp only: translate_suffix) simp
  have "glob_match (n @ ''_*.pkl'') f
          = (\<exists>r. f = (n @ ''_'') @ r \<and> (\<exists>m. r = m @ ''.pkl'' \<and> CHR ''/'' \<notin> set m))"
    unfolding glob_match_def tr
    by (simp only: match_literal_prefix match_any_run_literal)
  also have "\<dots> = (\<exists>m. f = n @ ''_'' @ m @ ''.pkl'' \<and> CHR ''/'' \<notin> set m)"
    by auto
  finally show ?thesis .
qed

lemma glob_dataset_key:
  assumes "no_wildcard n" "CHR ''/'' \<notin> set k"
  shows "glob_match (n @ ''_*.pkl'') (k @ ''.pkl'') = startswith k (n @ ''_'')"
proof -
  have "(\<exists>m. k @ ''.pkl'' = n @ ''_'' @ m @ ''.pkl'' \<and> CHR ''/'' \<notin> set m)
          = (\<exists>m. k = (n @ ''_'') @ m)"
  proof
    assume "\<exists>m. k @ ''.pkl'' = n @ ''_'' @ m @ ''.pkl'' \<and> CHR ''/'' \<notin> set m"
    then obtain m where "k @ ''.pkl'' = (n @ ''_'' @ m) @ ''.pkl''" by auto
    then have "k = n @ ''_'' @ m" by (simp only: append_same_eq)
    then show "\<exists>m. k = (n @ ''_'') @ m" by auto
  next
    assume "\<exists>m. k = (n @ ''_'') @ m"
    then obtain m where m: "k = (n @ ''_'') @ m" ..
    with assms(2) have "CHR ''/'' \<notin> set m" by auto
    with m show "\<exists>m. k @ ''.pkl'' = n @ ''_'' @ m @ ''.pkl'' \<and> CHR ''/'' \<notin> set m" by auto
  qed
  then show ?thesis
    by (simp only: glob_dataset_files[OF assms(1)] startswith_append)
qed

lemma save_then_get:
  assumes "enabled cm" "\<not> df_empty df"
  shows "snd (get_from_cache (save_to_cache cm df X step) X step) = Some df"
  using assms by (simp add: get_from_cache_def save_to_cache_def Let_def)

lemma get_after_clear:
  assumes "enabled cm" "X \<noteq> []" "no_wildcard X" "CHR ''/'' \<notin> set (cache_key d s)"
  shows "snd (get_from_cache (clear_cache cm (Some X)) d s) =
           (if startswith (cache_key d s) (X @ ''_'') then None
            else snd (get_from_cache cm d s))"
  using assms(1,2) glob_dataset_key[OF assms(3,4)]
  by (auto simp: get_from_cache_def clear_cache_def Let_def split: option.splits)

text \<open>
  C9, as the code has it. With caching enabled, a non-empty frame saved under
  (dataset \<open>X\<close>, step) is what reading (dataset \<open>X\<close>, step) returns. With caching enabled and
  for a non-empty name \<open>X\<close> without the wildcard characters \<open>*\<close>, \<open>?\<close> and \<open>[\<close> and without a
  path separator, \<open>clear("X")\<close> removes from the memory tier exactly the entries whose key
  starts with \<open>X_\<close>, and from the disk tier exactly the files \<open>X_m.pkl\<close> of the cache
  directory itself (\<open>m\<close> without a path separator); entries of a dataset whose own name
  starts with \<open>X_\<close> are among them. A later read of a key that starts with \<open>X_\<close> then finds
  nothing, and a read of any other key finds what it found before (keys without a path
  separator).
\<close>

theorem cache_roundtrip_and_clear:
  assumes "enabled cm"
  shows "(\<not> df_empty df \<longrightarrow>
            snd (get_from_cache (save_to_cache cm df X step) X step) = Some df)
       \<and> (X \<noteq> [] \<and> no_wildcard X \<longrightarrow>
            (\<forall>k. memory_cache (clear_cache cm (Some X)) k =
                   (if startswith k (X @ ''_'') then None else memory_cache cm k))
          \<and> (\<forall>f. cache_dir (clear_cache cm (Some X)) f =
                   (if \<exists>m. f = X @ ''_'' @ m @ ''.pkl'' \<and> CHR ''/'' \<notin> set m then None
                    else cache_dir cm f))
          \<and> (\<forall>d s. CHR ''/'' \<notin> set (cache_key d s) \<longrightarrow>
                   snd (get_from_cache (clear_cache cm (Some X)) d s) =
                   (if startswith (cache_key d s) (X @ ''_'') then None
                    else snd (get_from_cache cm d s))))"
proof (intro conjI impI allI)
  assume "\<not> df_empty df"
  with assms show "snd (get_from_cache (save_to_cache cm df X step) X step) = Some df"
    by (rule save_then_get)
next
  fix k
  assume "X \<noteq> [] \<and> no_wildcard X"
  with assms show "memory_cache (clear_cache cm (Some X)) k =
      (if startswith k (X @ ''_'') then None else memory_cache cm k)"
    by (simp add: clear_cache_def)
next
  fix f
  assume h: "X \<noteq> [] \<and> no_wildcard X"
  then have "glob_match (X @ ''_*.pkl'') f
               = (\<exists>m. f = X @ ''_'' @ m @ ''.pkl'' \<and> CHR ''/'' \<notin> set m)"
    using glob_dataset_files[of X f] by simp
  with assms h show "cache_dir (clear_cache cm (Some X)) f =
      (if \<exists>m. f = X @ ''_'' @ m @ ''.pkl'' \<and> CHR ''/'' \<notin> set m then None else cache_dir cm f)"
    by (simp add: clear_cache_def)
next
  fix d s
  assume "X \<noteq> [] \<and> no_wildcard X" "CHR ''/'' \<notin> set (cache_key d s)"
  with assms show "snd (get_from_cache (clear_cache cm (Some X)) d s) =
      (if startswith (cache_key d s) (X @ ''_'') then None else snd (get_from_cache cm d s))"
    using get_after_clear[of cm X d s] by simp
qed

text \<open>
  A frame saved for dataset Loan is read back; clearing Loan removes it, clearing Fraud
  does not.
\<close>

theorem cache_roundtrip_and_clear_witness:
  "snd (get_from_cache
     (save_to_cache \<lparr>enabled = True, memory_cache = Map.empty, cache_dir = Map.empty,
                      writable = (\<lambda>f. True)\<rparr>
        [(''Age'', [Some 30])] ''Loan'' ''DataCleaning'') ''Loan'' ''DataCleaning'')
     = Some [(''Age'', [Some 30])]
   \<and> snd (get_from_cache
       (clear_cache
         (save_to_cache \<lparr>enabled = True, memory_cache = Map.empty, cache_dir = Map.empty,
                          writable = (\<lambda>f. True)\<rparr>
            [(''Age'', [Some 30])] ''Loan'' ''DataCleaning'') (Some ''Loan''))
       ''Loan'' ''DataCleaning'') = None
   \<and> snd (get_from_cache
       (clear_cache
         (save_to_cache \<lparr>enabled = True, memory_cache = Map.empty, cache_dir = Map.empty,
                          writable = (\<lambda>f. True)\<rparr>
            [(''Age'', [Some 30])] ''Loan'' ''DataCleaning'') (Some ''Fraud''))
       ''Loan'' ''DataCleaning'') = Some [(''Age'', [Some 30])]"
proof -
  let ?cm0 = "\<lparr>enabled = True, memory_cache = Map.empty, cache_dir = Map.empty,
                writable = (\<lambda>f. True)\<rparr>"
  let ?df = "[(''Age'', [Some (30::rat)])]"
  let ?cm1 = "save_to_cache ?cm0 ?df ''Loan'' ''DataCleaning''"
  have en0: "enabled ?cm0" by simp
  have ne: "\<not> df_empty ?df" by (simp add: df_empty_def nrows_def)
  have en1: "enabled ?cm1" by (simp add: save_to_cache_def Let_def ne)
  have a: "snd (get_from_cache ?cm1 ''Loan'' ''DataCleaning'') = Some ?df"
    using cache_roundtrip_and_clear[OF en0, of ?df "''Loan''" "''DataCleaning''"] ne by blast
  have nw: "''Loan'' \<noteq> [] \<and> no_wildcard ''Loan''" "''Fraud'' \<noteq> [] \<and> no_wildcard ''Fraud''"
    by (simp_all add: no_wildcard_def)
  have key: "CHR ''/'' \<notin> set (cache_key ''Loan'' ''DataCleaning'')"
    by (simp add: cache_key_def)
  have b: "snd (get_from_cache (clear_cache ?cm1 (Some ''Loan'')) ''Loan'' ''DataCleaning'') = None"
    using cache_roundtrip_and_clear[OF en1, of ?df "''Loan''" "''DataCleaning''"] nw(1) key
    by (simp add: cache_key_def)
  have c: "snd (get_from_cache (clear_cache ?cm1 (Some ''Fraud'')) ''Loan'' ''DataCleaning'')
             = snd (get_from_cache ?cm1 ''Loan'' ''DataCleaning'')"
    using cache_roundtrip_and_clear[OF en1, of ?df "''Fraud''" "''DataCleaning''"] nw(2) key
    by (simp add: cache_key_def)
  from a b c show ?thesis by simp
qed

text \<open>
  The claim as stated fails: an empty frame is never stored, so reading after saving it
  finds nothing; clearing dataset \<open>X\<close> also removes the entry of the other dataset \<open>X_2\<close>;
  and for the dataset name \<open>[A]\<close>, which \<open>glob\<close> reads as a pattern for the one character
  \<open>A\<close>, clearing leaves the file of the dataset on disk, where the next read finds it.
\<close>

theorem cache_roundtrip_counterexample:
  "snd (get_from_cache
     (save_to_cache \<lparr>enabled = True, memory_cache = Map.empty, cache_dir = Map.empty,
                      writable = (\<lambda>f. True)\<rparr> [] ''X'' ''step'') ''X'' ''step'') = None
   \<and> snd (get_from_cache
       (save_to_cache \<lparr>enabled = True, memory_cache = Map.empty, cache_dir = Map.empty,
                        writable = (\<lambda>f. True)\<rparr>
          [(''Age'', [Some 30])] ''X_2'' ''step'') ''X_2'' ''step'')
       = Some [(''Age'', [Some 30])]
   \<and> snd (get_from_cache
       (clear_cache
         (save_to_cache \<lparr>enabled = True, memory_cache = Map.empty, cache_dir = Map.empty,
                          writable = (\<lambda>f. True)\<rparr>
            [(''Age'', [Some 30])] ''X_2'' ''step'') (Some ''X''))
       ''X_2'' ''step'') = None
   \<and> startswith (cache_key ''[A]'' ''step'') (''[A]'' @ ''_'')
   \<and> snd (get_from_cache
       (clear_cache
         (save_to_cache \<lparr>enabled = True, memory_cache = Map.empty, cache_dir = Map.empty,
                          writable = (\<lambda>f. True)\<rparr>
            [(''Age'', [Some 30])] ''[A]'' ''step'') (Some ''[A]''))
       ''[A]'' ''step'') = Some [(''Age'', [Some 30])]"
proof -
  have g1: "glob_match ''X_*.pkl'' ''X_2_step.pkl''" by code_simp
  have g2: "\<not> glob_match ''[A]_*.pkl'' ''[A]_step.pkl''" by code_simp
  have s: "startswith ''[A]_step'' ''[A]_''" by simp
  from g1 g2 s show ?thesis
    by (simp add: get_from_cache_def save_to_cache_def clear_cache_def cache_key_def
        df_empty_def nrows_def Let_def)
qed

subsection \<open>Pipeline executor\<close>

text \<open>
  C1. \<open>execute\<close> is declared to return the triple (success, final table, last validation
  result), and its callers unpack three values. When a step yields an empty frame the
  loop leaves through \<open>return False\<close>: the caller receives a bare boolean, not a triple.
  Here a one-step pipeline whose transformation step returns an empty frame.
\<close>

theorem execute_empty_step_returns_bare_false:
  "execute \<lparr>pe_steps = [OtherStep ''Transformation'' (\<lambda>df. Inr [])],
      loader_load = (\<lambda>p. [(''Age'', [Some 30])]),
      saver_save = (\<lambda>df p. True),
      cache_manager = \<lparr>enabled = True, memory_cache = Map.empty, cache_dir = Map.empty,
                        writable = (\<lambda>f. True)\<rparr>,
      pe_validator = \<lparr>vp_steps = [], validation_count = 0\<rparr>,
      pe_dataset_name = ''Loan''\<rparr> ''Loan.csv'' ''Loan_cooked.csv'' = Bare False"
  by (simp add: execute_def df_empty_def nrows_def get_from_cache_def)

subsection \<open>DataConsistencyFixerStrategy on Fraud data\<close>


lemma fraud_indicator_columns:
  assumes cols: "''IsOnlineTransaction'' \<in> set (columns (frame st))"
                "''IsUsedChip'' \<in> set (columns (frame st))"
                "''IsUsedPIN'' \<in> set (columns (frame st))"
      and len: "length (getc (frame st) ''IsUsedChip'') = length (getc (frame st) ''IsOnlineTransaction'')"
               "length (getc (frame st) ''IsUsedPIN'') = length (getc (frame st) ''IsOnlineTransaction'')"
  shows "getc (frame (fix_fraud_indicator_consistency st)) ''IsOnlineTransaction''
           = getc (frame st) ''IsOnlineTransaction''"
    and "getc (frame (fix_fraud_indicator_consistency st)) ''IsUsedChip''
           = loc_set (getc (frame st) ''IsUsedChip'')
               (mask_and (s_eq (getc (frame st) ''IsOnlineTransaction'') 1)
                         (s_eq (getc (frame st) ''IsUsedChip'') 1)) (Some 0)"
    and "getc (frame (fix_fraud_indicator_consistency st)) ''IsUsedPIN''
           = loc_set (getc (frame st) ''IsUsedPIN'')
               (mask_and (s_eq (getc (frame st) ''IsOnlineTransaction'') 1)
                         (s_eq (getc (frame st) ''IsUsedPIN'') 1)) (Some 0)"
proof -
  let ?on = "getc (frame st) ''IsOnlineTransaction''"
  let ?m1 = "mask_and (s_eq ?on 1) (s_eq (getc (frame st) ''IsUsedChip'') 1)"
  let ?st1 = "fix_masked ?m1 (loc_assign ''IsUsedChip'' ?m1 (Some 0)) st"
  let ?m2 = "mask_and (s_eq (getc (frame ?st1) ''IsOnlineTransaction'') 1)
                      (s_eq (getc (frame ?st1) ''IsUsedPIN'') 1)"
  have def: "fix_fraud_indicator_consistency st
               = fix_masked ?m2 (loc_assign ''IsUsedPIN'' ?m2 (Some 0)) ?st1"
    by (simp add: fix_fraud_indicator_consistency_def Let_def)
  have on1: "getc (frame ?st1) ''IsOnlineTransaction'' = ?on"
    by (simp add: getc_fix_masked_scalar_other)
  have pin1: "getc (frame ?st1) ''IsUsedPIN'' = getc (frame st) ''IsUsedPIN''"
    by (simp add: getc_fix_masked_scalar_other)
  have chip1: "getc (frame ?st1) ''IsUsedChip'' = loc_set (getc (frame st) ''IsUsedChip'') ?m1 (Some 0)"
    using cols(2) len(1) by (intro getc_fix_masked_scalar) simp_all
  have cols1: "columns (frame ?st1) = columns (frame st)"
    by (simp add: columns_fix_masked_scalar)
  show "getc (frame (fix_fraud_indicator_consistency st)) ''IsOnlineTransaction'' = ?on"
    unfolding def by (simp add: getc_fix_masked_scalar_other on1)
  show "getc (frame (fix_fraud_indicator_consistency st)) ''IsUsedChip''
           = loc_set (getc (frame st) ''IsUsedChip'') ?m1 (Some 0)"
    unfolding def by (simp add: getc_fix_masked_scalar_other chip1)
  have "getc (frame (fix_fraud_indicator_consistency st)) ''IsUsedPIN''
          = loc_set (getc (frame ?st1) ''IsUsedPIN'') ?m2 (Some 0)"
    unfolding def using cols(3) len(2)
    by (intro getc_fix_masked_scalar) (simp_all add: cols1 on1 pin1)
  then show "getc (frame (fix_fraud_indicator_consistency st)) ''IsUsedPIN''
           = loc_set (getc (frame st) ''IsUsedPIN'')
               (mask_and (s_eq ?on 1) (s_eq (getc (frame st) ''IsUsedPIN'') 1)) (Some 0)"
    by (simp add: on1 pin1)
qed

lemma fraud_fix_result:
  assumes ds: "current_dataset cfg = ''Fraud''"
      and ne: "\<not> df_empty df"
  shows "snd (DataConsistencyFixerStrategy_fix fl fm cfg old_count df)
           = Inr (frame (fix_fraud_consistency \<lparr>frame = df, fix_count = 0\<rparr>))"
  using assms
  by (simp add: DataConsistencyFixerStrategy_fix_def FixerStrategy_fix_def
      DataConsistencyFixerStrategy_fix_impl_def Let_def)

text \<open>
  C8. On a Fraud frame holding the four binary indicator columns, after
  \<open>DataConsistencyFixerStrategy.fix\<close> no row has \<open>IsOnlineTransaction = 1\<close> together with
  \<open>IsUsedChip = 1\<close> or with \<open>IsUsedPIN = 1\<close>; a row that had \<open>IsOnlineTransaction = 1\<close> and
  \<open>IsUsedChip = 1\<close> ends with \<open>IsUsedChip = 0\<close>.
\<close>

theorem fraud_online_excludes_chip_and_pin:
  assumes ds: "current_dataset cfg = ''Fraud''"
      and wf: "wf_df df"
      and cols: "''IsFraudulent'' \<in> set (columns df)"
                "''IsOnlineTransaction'' \<in> set (columns df)"
                "''IsUsedChip'' \<in> set (columns df)"
                "''IsUsedPIN'' \<in> set (columns df)"
  shows "\<exists>out. snd (DataConsistencyFixerStrategy_fix fl fm cfg old_count df) = Inr out
           \<and> length (getc out ''IsOnlineTransaction'') = nrows df
           \<and> length (getc out ''IsUsedChip'') = nrows df
           \<and> length (getc out ''IsUsedPIN'') = nrows df
           \<and> (\<forall>i<nrows df.
                 \<not> (getc out ''IsOnlineTransaction'' ! i = Some 1
                      \<and> getc out ''IsUsedChip'' ! i = Some 1)
               \<and> \<not> (getc out ''IsOnlineTransaction'' ! i = Some 1
                      \<and> getc out ''IsUsedPIN'' ! i = Some 1)
               \<and> (getc df ''IsOnlineTransaction'' ! i = Some 1
                    \<and> getc df ''IsUsedChip'' ! i = Some 1
                    \<longrightarrow> getc out ''IsUsedChip'' ! i = Some 0))"
proof (cases "df_empty df")
  case True
  then have out: "snd (DataConsistencyFixerStrategy_fix fl fm cfg old_count df) = Inr df"
    by (simp add: DataConsistencyFixerStrategy_fix_def FixerStrategy_fix_def)
  from True cols(1) have "nrows df = 0" by (auto simp: df_empty_def columns_def)
  moreover have "length (getc df ''IsOnlineTransaction'') = nrows df"
    "length (getc df ''IsUsedChip'') = nrows df" "length (getc df ''IsUsedPIN'') = nrows df"
    using wf cols by (simp_all add: length_getc)
  ultimately show ?thesis using out by simp
next
  case False
  let ?st = "\<lparr>frame = df, fix_count = 0\<rparr>"
  let ?out = "frame (fix_fraud_consistency ?st)"
  have out: "snd (DataConsistencyFixerStrategy_fix fl fm cfg old_count df) = Inr ?out"
    using ds False by (rule fraud_fix_result)
  have eq: "fix_fraud_consistency ?st = fix_fraud_indicator_consistency ?st"
    using cols by (simp add: fix_fraud_consistency_def)
  have len: "length (getc df ''IsOnlineTransaction'') = nrows df"
            "length (getc df ''IsUsedChip'') = nrows df"
            "length (getc df ''IsUsedPIN'') = nrows df"
    using wf cols by (simp_all add: length_getc)
  have on: "getc ?out ''IsOnlineTransaction'' = getc df ''IsOnlineTransaction''"
    and chip: "getc ?out ''IsUsedChip'' = loc_set (getc df ''IsUsedChip'')
               (mask_and (s_eq (getc df ''IsOnlineTransaction'') 1)
                         (s_eq (getc df ''IsUsedChip'') 1)) (Some 0)"
    and pin: "getc ?out ''IsUsedPIN'' = loc_set (getc df ''IsUsedPIN'')
               (mask_and (s_eq (getc df ''IsOnlineTransaction'') 1)
                         (s_eq (getc df ''IsUsedPIN'') 1)) (Some 0)"
    unfolding eq using fraud_indicator_columns[of ?st] cols len by simp_all
  have rows: "\<forall>i<nrows df.
                 \<not> (getc ?out ''IsOnlineTransaction'' ! i = Some 1
                      \<and> getc ?out ''IsUsedChip'' ! i = Some 1)
               \<and> \<not> (getc ?out ''IsOnlineTransaction'' ! i = Some 1
                      \<and> getc ?out ''IsUsedPIN'' ! i = Some 1)
               \<and> (getc df ''IsOnlineTransaction'' ! i = Some 1
                    \<and> getc df ''IsUsedChip'' ! i = Some 1
                    \<longrightarrow> getc ?out ''IsUsedChip'' ! i = Some 0)"
    unfolding on chip pin using len
    by (auto simp: nth_loc_set nth_mask_and nth_masks)
  have lens: "length (getc ?out ''IsOnlineTransaction'') = nrows df"
             "length (getc ?out ''IsUsedChip'') = nrows df"
             "length (getc ?out ''IsUsedPIN'') = nrows df"
    unfolding on chip pin using len by (simp_all add: length_loc_set)
  from out rows lens show ?thesis by blast
qed

text \<open>Two rows, the first an online transaction recorded with chip and PIN.\<close>

theorem fraud_online_excludes_chip_and_pin_witness:
  "wf_df [(''IsFraudulent'', [Some 0, Some 1]), (''IsOnlineTransaction'', [Some 1, Some 0]),
          (''IsUsedChip'', [Some 1, Some 1]), (''IsUsedPIN'', [Some 1, Some 0])]
   \<and> (\<exists>out. snd (DataConsistencyFixerStrategy_fix (\<lambda>st. st) (\<lambda>st. st)
                    \<lparr>outlier_threshold = 3, current_dataset = ''Fraud''\<rparr> 0
                    [(''IsFraudulent'', [Some 0, Some 1]),
                     (''IsOnlineTransaction'', [Some 1, Some 0]),
                     (''IsUsedChip'', [Some 1, Some 1]), (''IsUsedPIN'', [Some 1, Some 0])])
               = Inr out
            \<and> getc out ''IsOnlineTransaction'' ! 0 = Some 1
            \<and> getc out ''IsUsedChip'' ! 0 = Some 0
            \<and> getc out ''IsUsedPIN'' ! 0 \<noteq> Some 1)"
proof -
  let ?df = "[(''IsFraudulent'', [Some 0, Some 1]), (''IsOnlineTransaction'', [Some 1, Some 0]),
          (''IsUsedChip'', [Some 1, Some 1]), (''IsUsedPIN'', [Some 1, Some (0::rat)])]"
  let ?cfg = "\<lparr>outlier_threshold = 3, current_dataset = ''Fraud''\<rparr>"
  have ds: "current_dataset ?cfg = ''Fraud''" by simp
  have wf: "wf_df ?df" by (simp add: wf_df_def columns_def nrows_def)
  have cols: "''IsFraudulent'' \<in> set (columns ?df)" "''IsOnlineTransaction'' \<in> set (columns ?df)"
    "''IsUsedChip'' \<in> set (columns ?df)" "''IsUsedPIN'' \<in> set (columns ?df)"
    by (simp_all add: columns_def)
  have n: "0 < nrows ?df" by (simp add: nrows_def)
  have orig: "getc ?df ''IsOnlineTransaction'' ! 0 = Some 1" "getc ?df ''IsUsedChip'' ! 0 = Some 1"
    by (simp_all add: getc_def)
  from fraud_online_excludes_chip_and_pin[OF ds wf cols, of "\<lambda>st. st" "\<lambda>st. st" 0]
  obtain out where out: "snd (DataConsistencyFixerStrategy_fix (\<lambda>st. st) (\<lambda>st. st) ?cfg 0 ?df) = Inr out"
    and rows: "\<forall>i<nrows ?df.
                 \<not> (getc out ''IsOnlineTransaction'' ! i = Some 1
                      \<and> getc out ''IsUsedChip'' ! i = Some 1)
               \<and> \<not> (getc out ''IsOnlineTransaction'' ! i = Some 1
                      \<and> getc out ''IsUsedPIN'' ! i = Some 1)
               \<and> (getc ?df ''IsOnlineTransaction'' ! i = Some 1
                    \<and> getc ?df ''IsUsedChip'' ! i = Some 1
                    \<longrightarrow> getc out ''IsUsedChip'' ! i = Some 0)"
    by blast
  from rows n orig have chip: "getc out ''IsUsedChip'' ! 0 = Some 0" by blast
  have "frame (fix_fraud_consistency \<lparr>frame = ?df, fix_count = 0\<rparr>) = 
          [(''IsFraudulent'', [Some 0, Some 1]), (''IsOnlineTransaction'', [Some 1, Some 0]),
          (''IsUsedChip'', [Some 0, Some 1]), (''IsUsedPIN'', [Some 0, Some 0])]"
    by code_simp
  moreover have "\<not> df_empty ?df" by (simp add: df_empty_def nrows_def)
  ultimately have "out = [(''IsFraudulent'', [Some 0, Some 1]), (''IsOnlineTransaction'', [Some 1, Some 0]),
          (''IsUsedChip'', [Some 0, Some 1]), (''IsUsedPIN'', [Some 0, Some 0])]"
    using out fraud_fix_result[OF ds, of ?df "\<lambda>st. st" "\<lambda>st. st" 0] by simp
  then have "getc out ''IsOnlineTransaction'' ! 0 = Some 1" "getc out ''IsUsedPIN'' ! 0 \<noteq> Some 1"
    by (simp_all add: getc_def)
  with wf out chip show ?thesis by blast
qed

subsection \<open>DomainLoanFixerStrategy\<close>

lemma nth_s_lt_gt:
  "i < length s \<Longrightarrow> s ! i = Some a \<Longrightarrow> s_lt s c ! i = (a < c)"
  "i < length s \<Longrightarrow> s ! i = Some a \<Longrightarrow> s_gt s c ! i = (a > c)"
  "i < length s \<Longrightarrow> s ! i = None \<Longrightarrow> s_lt s c ! i = False"
  "i < length s \<Longrightarrow> s ! i = None \<Longrightarrow> s_gt s c ! i = False"
  by (simp_all add: nth_masks)








lemma if_present_columns:
  assumes "\<And>s. columns (frame (f s)) = columns (frame s)"
  shows "columns (frame (if_present col f st)) = columns (frame st)"
  using assms by (simp add: if_present_def)

lemma if_present_other:
  assumes "\<And>s. getc (frame (f s)) c = getc (frame s) c"
  shows "getc (frame (if_present col f st)) c = getc (frame st) c"
  using assms by (simp add: if_present_def)





















subsection \<open>DomainMarketFixerStrategy\<close>

text \<open>
  C4. On four quiet days and one day of a price spike, all rows complete and none
  inverted, the fixer caps each price column at bounds taken from that column alone:
  the highest value of the spike day is capped at 10 (its column has no spread), the
  lowest value at 21. The row ends with \<open>HighestValue = 10 < LowestValue = 21\<close> and with
  open and close at 21, above the highest value; the final check of the source would
  log this row as critical. No price is negative, so the dtypes of the columns play no
  role.
\<close>

theorem market_fixer_leaves_inversion:
  "snd (DomainMarketFixerStrategy_fix dtypes 0 0
     [(''OpenValue'', [Some 5, Some 5, Some 9, Some 9, Some 95]),
      (''CloseValue'', [Some 5, Some 5, Some 9, Some 9, Some 95]),
      (''HighestValue'', [Some 10, Some 10, Some 10, Some 10, Some 100]),
      (''LowestValue'', [Some 1, Some 1, Some 9, Some 9, Some 90])])
   = Inr [(''OpenValue'', [Some 5, Some 5, Some 9, Some 9, Some 21]),
          (''CloseValue'', [Some 5, Some 5, Some 9, Some 9, Some 21]),
          (''HighestValue'', [Some 10, Some 10, Some 10, Some 10, Some 10]),
          (''LowestValue'', [Some 1, Some 1, Some 9, Some 9, Some 21])]"
  by code_simp

subsection \<open>OutlierFixerStrategy\<close>

lemma getc_loc_assign_same:
  "col \<in> set (columns (frame st))
     \<Longrightarrow> getc (frame (loc_assign col m v st)) col = loc_set (getc (frame st) col) m v"
  by (simp add: loc_assign_def getc_setc_same)

lemma mask_any_False: "\<not> mask_any m \<Longrightarrow> mask_sum m = 0"
  by (simp add: mask_any_iff)


lemma fix_outliers_with_bounds_col:
  assumes "col \<in> set (columns (frame st))"
  shows "getc (frame (fst (fix_outliers_with_bounds st col lo hi None))) col
           = loc_set (loc_set (getc (frame st) col) (s_ltc (getc (frame st) col) lo) lo)
               (s_gtc (getc (frame st) col) hi) hi"
proof -
  let ?s = "getc (frame st) col"
  let ?lm = "s_ltc ?s lo" and ?um = "s_gtc ?s hi"
  let ?st1 = "if mask_any ?lm then loc_assign col ?lm lo st else st"
  have c1: "columns (frame ?st1) = columns (frame st)"
    by (simp add: columns_loc_assign)
  have s1: "getc (frame ?st1) col = loc_set ?s ?lm lo"
    using assms by (simp add: getc_loc_assign_same loc_set_none mask_any_False)
  let ?st2 = "if mask_any ?um then loc_assign col ?um hi ?st1 else ?st1"
  have s2: "getc (frame ?st2) col = loc_set (loc_set ?s ?lm lo) ?um hi"
  proof (cases "mask_any ?um")
    case True
    then show ?thesis using assms c1 s1 getc_loc_assign_same[of col ?st1 ?um hi] by simp
  next
    case False
    then have "loc_set (loc_set ?s ?lm lo) ?um hi = loc_set ?s ?lm lo"
      by (intro loc_set_none) (simp_all add: mask_any_False length_loc_set)
    with False s1 show ?thesis by simp
  qed
  have "fst (fix_outliers_with_bounds st col lo hi None) = ?st2"
    by (simp add: fix_outliers_with_bounds_def Let_def)
  with s2 show ?thesis by simp
qed


lemma fix_global_outliers_col:
  assumes "col \<in> set (columns (frame st))"
  shows "getc (frame (fst (fix_global_outliers st col k))) col
           = global_fixed k (getc (frame st) col)"
proof (cases "calculate_bounds (getc (frame st) col) k")
  case None
  then show ?thesis by (simp add: fix_global_outliers_def global_fixed_def)
next
  case (Some b)
  obtain lo hi where b: "b = (lo, hi)" by (cases b)
  have "fst (fix_global_outliers st col k)
          = log_fixes (snd (fix_outliers_with_bounds st col lo hi None))
              (fst (fix_outliers_with_bounds st col lo hi None))"
    using Some b by (simp add: fix_global_outliers_def split: prod.splits)
  then show ?thesis
    using Some b fix_outliers_with_bounds_col[OF assms, of lo hi]
    by (simp add: frame_log_fixes global_fixed_def)
qed





text \<open>The group correction, on the frame and on the column.\<close>

lemma length_group_step: "length key0 = length s \<Longrightarrow> length (group_step key0 col0 g s) = length s"
  by (simp add: group_step_def length_loc_set split: option.splits)

lemma fix_group_frame:
  "columns (frame (fst (fix_group col key key0 col0 g (st, t)))) = columns (frame st)"
  "c \<noteq> col \<Longrightarrow> getc (frame (fst (fix_group col key key0 col0 g (st, t)))) c = getc (frame st) c"
  by (simp_all add: fix_group_def Let_def columns_loc_assign getc_loc_assign_other
      split: list.splits prod.splits)

lemma fix_group_col:
  assumes c: "col \<in> set (columns (frame st))"
      and k: "getc (frame st) key = key0"
      and l: "length key0 = length (getc (frame st) col)"
  shows "getc (frame (fst (fix_group col key key0 col0 g (st, t)))) col
           = group_step key0 col0 g (getc (frame st) col)"
proof (cases "consensus key0 col0 g")
  case None
  then have "fst (fix_group col key key0 col0 g (st, t)) = st"
    by (auto simp: fix_group_def consensus_def Let_def split: list.splits prod.splits if_splits)
  with None show ?thesis by (simp add: group_step_def)
next
  case (Some e)
  let ?s = "getc (frame st) col"
  let ?m = "mask_and (s_eq key0 g) (s_ne ?s (Some e))"
  have st': "fst (fix_group col key key0 col0 g (st, t))
               = (if mask_sum ?m > 0 then loc_assign col ?m (Some e) st else st)"
    using Some k
    by (auto simp: fix_group_def consensus_def Let_def split: list.splits prod.splits if_splits)
  have "getc (frame (if mask_sum ?m > 0 then loc_assign col ?m (Some e) st else st)) col
          = loc_set ?s ?m (Some e)"
    using c l by (simp add: getc_loc_assign_same loc_set_none)
  with st' Some show ?thesis by (simp add: group_step_def)
qed

lemma fold_fix_group:
  assumes "col \<in> set (columns (frame st))" "col \<noteq> key"
      and "getc (frame st) key = key0"
      and "length key0 = length (getc (frame st) col)"
  shows "columns (frame (fst (fold (fix_group col key key0 col0) gs (st, t)))) = columns (frame st)
       \<and> (\<forall>c. c \<noteq> col \<longrightarrow>
             getc (frame (fst (fold (fix_group col key key0 col0) gs (st, t)))) c
               = getc (frame st) c)
       \<and> getc (frame (fst (fold (fix_group col key key0 col0) gs (st, t)))) col
           = fold (group_step key0 col0) gs (getc (frame st) col)"
  using assms
proof (induction gs arbitrary: st t)
  case Nil
  then show ?case by simp
next
  case (Cons g gs)
  obtain st' t' where step: "fix_group col key key0 col0 g (st, t) = (st', t')"
    by (cases "fix_group col key key0 col0 g (st, t)")
  have cols: "columns (frame st') = columns (frame st)"
    using fix_group_frame(1)[of col key key0 col0 g st t] step by simp
  have other: "c \<noteq> col \<Longrightarrow> getc (frame st') c = getc (frame st) c" for c
    using fix_group_frame(2)[of c col key key0 col0 g st t] step by simp
  have col': "getc (frame st') col = group_step key0 col0 g (getc (frame st) col)"
    using fix_group_col[OF Cons.prems(1,3,4), of col0 g t] step by simp
  have len: "length key0 = length (getc (frame st') col)"
    using Cons.prems(4) by (simp add: col' length_group_step)
  have key': "getc (frame st') key = key0"
    using other[of key] Cons.prems(2,3) by simp
  have c': "col \<in> set (columns (frame st'))" using Cons.prems(1) cols by simp
  from Cons.IH[OF c' Cons.prems(2) key' len, of t']
  show ?case by (simp add: step cols other col')
qed

lemma fix_group_outliers_frame:
  assumes "col \<in> set (columns (frame st))" "col \<noteq> key"
      and "length (getc (frame st) key) = length (getc (frame st) col)"
  shows "columns (frame (fst (fix_group_outliers st col key k))) = columns (frame st)"
    and "c \<noteq> col \<Longrightarrow> getc (frame (fst (fix_group_outliers st col key k))) c = getc (frame st) c"
    and "getc (frame (fst (fix_group_outliers st col key k))) col
           = group_fixed (getc (frame st) key) (getc (frame st) col)"
proof -
  let ?key0 = "getc (frame st) key" and ?col0 = "getc (frame st) col"
  let ?r = "fold (fix_group col key ?key0 ?col0) (group_ids ?key0) (st, 0)"
  have fr: "frame (fst (fix_group_outliers st col key k)) = frame (fst ?r)"
    by (simp add: fix_group_outliers_def Let_def frame_log_fixes split: prod.splits)
  note f = fold_fix_group[OF assms(1,2) refl assms(3), of ?col0 "group_ids ?key0" 0]
  show "columns (frame (fst (fix_group_outliers st col key k))) = columns (frame st)"
    unfolding fr using f by blast
  show "c \<noteq> col \<Longrightarrow> getc (frame (fst (fix_group_outliers st col key k))) c = getc (frame st) c"
    unfolding fr using f by blast
  show "getc (frame (fst (fix_group_outliers st col key k))) col = group_fixed ?key0 ?col0"
    unfolding fr group_fixed_def using f by blast
qed


text \<open>One column of the loop of \<open>OutlierFixerStrategy._fix\<close>, and the loop.\<close>

lemma fold_fix_group_frame:
  "columns (frame (fst (fold (fix_group col key key0 col0) gs (st, t)))) = columns (frame st)
   \<and> (\<forall>c. c \<noteq> col \<longrightarrow>
         getc (frame (fst (fold (fix_group col key key0 col0) gs (st, t)))) c = getc (frame st) c)"
proof (induction gs arbitrary: st t)
  case Nil
  then show ?case by simp
next
  case (Cons g gs)
  obtain st' t' where step: "fix_group col key key0 col0 g (st, t) = (st', t')"
    by (cases "fix_group col key key0 col0 g (st, t)")
  have "columns (frame st') = columns (frame st)"
       "\<And>c. c \<noteq> col \<Longrightarrow> getc (frame st') c = getc (frame st) c"
    using fix_group_frame(1)[of col key key0 col0 g st t]
      fix_group_frame(2)[of _ col key key0 col0 g st t] step by simp_all
  with Cons.IH[of st' t'] show ?case by (simp add: step)
qed

lemma fix_group_outliers_any_frame:
  "columns (frame (fst (fix_group_outliers st col key k))) = columns (frame st)"
  "c \<noteq> col \<Longrightarrow> getc (frame (fst (fix_group_outliers st col key k))) c = getc (frame st) c"
proof -
  let ?key0 = "getc (frame st) key" and ?col0 = "getc (frame st) col"
  have fr: "frame (fst (fix_group_outliers st col key k))
              = frame (fst (fold (fix_group col key ?key0 ?col0) (group_ids ?key0) (st, 0)))"
    by (simp add: fix_group_outliers_def Let_def frame_log_fixes split: prod.splits)
  note f = fold_fix_group_frame[of col key ?key0 ?col0 "group_ids ?key0" st 0]
  show "columns (frame (fst (fix_group_outliers st col key k))) = columns (frame st)"
    unfolding fr using f by blast
  show "c \<noteq> col \<Longrightarrow> getc (frame (fst (fix_group_outliers st col key k))) c = getc (frame st) c"
    unfolding fr using f by blast
qed




lemma outlier_fix_column_col:
  assumes c: "col \<in> set (columns (frame st))"
      and ns: "\<not> should_skip_column col (frame st) (current_dataset cfg)"
      and k: "\<And>g. key = Some g \<Longrightarrow>
                col \<noteq> g \<and> length (getc (frame st) g) = length (getc (frame st) col)"
  shows "getc (frame (outlier_fix_column cfg key col st)) col
           = global_fixed (outlier_threshold cfg)
               (case key of None \<Rightarrow> getc (frame st) col
                | Some g \<Rightarrow> group_fixed (getc (frame st) g) (getc (frame st) col))"
proof (cases key)
  case None
  with ns c show ?thesis
    by (simp add: outlier_fix_column_def fix_global_outliers_col)
next
  case (Some g)
  let ?st1 = "fst (fix_group_outliers st col g (outlier_threshold cfg))"
  from k[OF Some] have ne: "col \<noteq> g"
    and len: "length (getc (frame st) g) = length (getc (frame st) col)" by simp_all
  have c1: "col \<in> set (columns (frame ?st1))"
    using c by (simp add: fix_group_outliers_any_frame)
  have "getc (frame (outlier_fix_column cfg key col st)) col
          = getc (frame (fst (fix_global_outliers ?st1 col (outlier_threshold cfg)))) col"
    using ns Some by (simp add: outlier_fix_column_def)
  also have "\<dots> = global_fixed (outlier_threshold cfg) (getc (frame ?st1) col)"
    using c1 by (rule fix_global_outliers_col)
  also have "getc (frame ?st1) col = group_fixed (getc (frame st) g) (getc (frame st) col)"
    using c ne len by (rule fix_group_outliers_frame(3))
  finally show ?thesis using Some by simp
qed





















lemma fold_group_step_length:
  "length key0 = length s \<Longrightarrow> length (fold (group_step key0 col0) gs s) = length s"
  by (induction gs arbitrary: s) (simp_all add: length_group_step)









end
